theory Spec2Isabelle
  imports Complex_Main "HOL-Library.AList"
begin

section \<open>Python strings\<close>

text \<open>
  A Python \<open>str\<close> is modelled as a \<^typ>\<open>string\<close> whose characters are the code points
  below 256 (Latin-1).  On that range \<open>str.isspace\<close>, \<open>str.isdigit\<close> and \<open>str.lower\<close>
  are the following three functions.
\<close>

definition isspace :: "char \<Rightarrow> bool" where
  "isspace c = (let n = (of_char c :: nat) in
     (9 \<le> n \<and> n \<le> 13) \<or> (28 \<le> n \<and> n \<le> 32) \<or> n = 133 \<or> n = 160)"

definition isdigit :: "char \<Rightarrow> bool" where
  "isdigit c = (let n = (of_char c :: nat) in
     (48 \<le> n \<and> n \<le> 57) \<or> n = 178 \<or> n = 179 \<or> n = 185)"

definition lower_char :: "char \<Rightarrow> char" where
  "lower_char c = (let n = (of_char c :: nat) in
     if (65 \<le> n \<and> n \<le> 90) \<or> (192 \<le> n \<and> n \<le> 222 \<and> n \<noteq> 215)
     then char_of (n + 32) else c)"

definition lower :: "string \<Rightarrow> string" where
  "lower s = map lower_char s"

definition strip :: "string \<Rightarrow> string" where
  "strip s = rev (dropWhile isspace (rev (dropWhile isspace s)))"

definition startswith :: "string \<Rightarrow> string \<Rightarrow> bool" where
  "startswith s p = (take (length p) s = p)"

section \<open>Field normalizer: actor identities (utils/graph.py)\<close>

definition canonicalize_actor :: "string option \<Rightarrow> string option" where
  "canonicalize_actor value =
     (case value of
        None \<Rightarrow> None
      | Some v \<Rightarrow>
          (let text = strip v in
           if text = [] then None
           else
             let lower_text = lower text;
                 text' = (if startswith lower_text ''tel:'' then drop 4 text else text);
                 lower_text' = (if startswith lower_text ''tel:'' then lower text' else lower_text)
             in
               if CHR ''@'' \<in> set text' then Some lower_text'
               else
                 let digits = filter isdigit text' in
                 if digits \<noteq> [] then
                   Some ((if startswith (strip text') ''+'' then ''+'' else '''') @ digits)
                 else Some lower_text'))"

section \<open>Python numbers, dates and times\<close>

text \<open>
  Exceptions of the interpreter and its library are values.  A Python \<open>float\<close> is an
  IEEE 754 binary64 number: a finite one is given by its value, a rational, and there are the
  two infinities and NaN.
\<close>

datatype pyexc =
  TypeError | ValueError | OverflowError | OSError | IntegrityError | DatabaseError | RuntimeError |
  OtherError

datatype pyfloat = Finite rat | PosInf | NegInf | NaN

text \<open>
  Rounding to binary64, to nearest with ties to even.  \<open>binade x\<close> is the \<open>e\<close> with
  \<open>2 ^ e \<le> |x| < 2 ^ (e + 1)\<close>; \<open>nearest_double x\<close> is the multiple of the quantum
  \<open>2 ^ max (e - 52) (-1074)\<close> nearest to \<open>x\<close>; a value that rounds to \<open>2 ^ 1024\<close> or more in
  magnitude becomes an infinity.
\<close>

function bit_length :: "int \<Rightarrow> int" where
  "bit_length n = (if n \<le> 0 then 0 else 1 + bit_length (n div 2))"
  by pat_completeness auto
termination
  by (relation "measure nat") auto

declare bit_length.simps [simp del]

definition pow2 :: "int \<Rightarrow> rat" where
  "pow2 e = (if e \<ge> 0 then 2 ^ nat e else 1 / 2 ^ nat (- e))"

definition round_half_even :: "rat \<Rightarrow> int" where
  "round_half_even x =
     (let f = \<lfloor>x\<rfloor>; d = x - of_int f
      in if d < 1 / 2 then f else if d > 1 / 2 then f + 1 else if even f then f else f + 1)"

definition binade :: "rat \<Rightarrow> int" where
  "binade x =
     (let a = \<bar>x\<bar>;
          e0 = bit_length (fst (quotient_of a)) - bit_length (snd (quotient_of a))
      in if a < pow2 e0 then e0 - 1 else e0)"

definition nearest_double :: "rat \<Rightarrow> rat" where
  "nearest_double x =
     (if x = 0 then 0
      else
        (let quantum = pow2 (max (binade x - 52) (- 1074));
             y = of_int (round_half_even (\<bar>x\<bar> / quantum)) * quantum
         in if x < 0 then - y else y))"

definition round_to_double :: "rat \<Rightarrow> pyfloat" where
  "round_to_double x =
     (let y = nearest_double x
      in if y \<noteq> 0 \<and> binade y \<ge> 1024 then (if y < 0 then NegInf else PosInf) else Finite y)"

definition float_isspace :: "char \<Rightarrow> bool" where
  "float_isspace c = (let n = (of_char c :: nat) in
     (9 \<le> n \<and> n \<le> 13) \<or> n = 32 \<or> n = 133 \<or> n = 160)"

definition ascii_digit :: "char \<Rightarrow> bool" where
  "ascii_digit c = (let n = (of_char c :: nat) in 48 \<le> n \<and> n \<le> 57)"

definition digit_val :: "char \<Rightarrow> int" where
  "digit_val c = of_char c - 48"

definition int_of_digits :: "string \<Rightarrow> int" where
  "int_of_digits ds = foldl (\<lambda>a c. 10 * a + digit_val c) 0 ds"

text \<open>
  The digits of a literal: \<open>digit (["_"] digit)*\<close>.  \<open>digitpart_rest\<close> reads what
  follows a first digit; both return the digits read (underscores removed) and the rest.
\<close>

fun digitpart_rest :: "string \<Rightarrow> string \<times> string" where
  "digitpart_rest [] = ([], [])"
| "digitpart_rest [c] = (if ascii_digit c then ([c], []) else ([], [c]))"
| "digitpart_rest (c # d # cs) =
     (if ascii_digit c then (let (ds, r) = digitpart_rest (d # cs) in (c # ds, r))
      else if c = CHR ''_'' \<and> ascii_digit d then (let (ds, r) = digitpart_rest cs in (d # ds, r))
      else ([], c # d # cs))"

definition digitpart :: "string \<Rightarrow> string \<times> string" where
  "digitpart s =
     (case s of
        [] \<Rightarrow> ([], [])
      | c # cs \<Rightarrow> if ascii_digit c then (let (ds, r) = digitpart_rest cs in (c # ds, r)) else ([], s))"

definition split_sign :: "string \<Rightarrow> bool \<times> string" where
  "split_sign s =
     (case s of
        [] \<Rightarrow> (False, [])
      | c # cs \<Rightarrow> if c = CHR ''-'' then (True, cs) else if c = CHR ''+'' then (False, cs) else (False, s))"

definition decimal_value :: "bool \<Rightarrow> string \<Rightarrow> string \<Rightarrow> bool \<Rightarrow> nat \<Rightarrow> rat" where
  "decimal_value neg ip fp eneg e =
     (let m = of_int (int_of_digits (ip @ fp)) / 10 ^ length fp;
          x = (if eneg then m / 10 ^ e else m * 10 ^ e)
      in if neg then - x else x)"

text \<open>\<open>float(s)\<close> for a string \<open>s\<close>: the double nearest to the decimal value, or
  \<open>ValueError\<close>.\<close>

definition py_float :: "string \<Rightarrow> pyexc + pyfloat" where
  "py_float s =
     (let t = rev (dropWhile float_isspace (rev (dropWhile float_isspace s)));
          (neg, u) = split_sign t;
          lu = lower u
      in if lu = ''inf'' \<or> lu = ''infinity'' then Inr (if neg then NegInf else PosInf)
         else if lu = ''nan'' then Inr NaN
         else
           let (ip, r1) = digitpart u;
               (fp, r2) = (case r1 of
                             [] \<Rightarrow> ([], [])
                           | c # cs \<Rightarrow> if c = CHR ''.'' then digitpart cs else ([], r1))
           in if ip = [] \<and> fp = [] then Inl ValueError
              else
                (case r2 of
                   [] \<Rightarrow> Inr (round_to_double (decimal_value neg ip fp False 0))
                 | c # r3 \<Rightarrow>
                     if c = CHR ''e'' \<or> c = CHR ''E'' then
                       (let (eneg, r4) = split_sign r3; (ed, r5) = digitpart r4
                        in if ed = [] \<or> r5 \<noteq> [] then Inl ValueError
                           else Inr (round_to_double
                                       (decimal_value neg ip fp eneg (nat (int_of_digits ed)))))
                     else Inl ValueError))"

text \<open>Comparison and arithmetic of a float with a positive constant that is itself a double:
  the comparison is exact, the quotient and the difference are rounded.\<close>

fun float_gt :: "pyfloat \<Rightarrow> rat \<Rightarrow> bool" where
  "float_gt (Finite x) c = (x > c)"
| "float_gt PosInf c = True"
| "float_gt NegInf c = False"
| "float_gt NaN c = False"

fun float_div :: "pyfloat \<Rightarrow> rat \<Rightarrow> pyfloat" where
  "float_div (Finite x) c = round_to_double (x / c)"
| "float_div y c = y"

fun float_sub :: "pyfloat \<Rightarrow> rat \<Rightarrow> pyfloat" where
  "float_sub (Finite x) c = round_to_double (x - c)"
| "float_sub y c = y"

text \<open>
  A \<open>datetime\<close>; \<open>tzinfo\<close> is the UTC offset in microseconds of an aware value and
  \<open>None\<close> for a naive one.
\<close>

record pydatetime =
  year :: int
  month :: int
  day :: int
  hour :: int
  minute :: int
  second :: int
  microsecond :: int
  tzinfo :: "int option"

text \<open>The proleptic Gregorian date of a day number counted from 1970-01-01.\<close>

definition civil_from_days :: "int \<Rightarrow> int \<times> int \<times> int" where
  "civil_from_days z =
     (let z' = z + 719468;
          era = z' div 146097;
          doe = z' mod 146097;
          yoe = (doe - doe div 1460 + doe div 36524 - doe div 146096) div 365;
          y = yoe + era * 400;
          doy = doe - (365 * yoe + yoe div 4 - yoe div 100);
          mp = (5 * doy + 2) div 153;
          d = doy - (153 * mp + 2) div 5 + 1;
          m = (if mp < 10 then mp + 3 else mp - 9)
      in (if m \<le> 2 then y + 1 else y, m, d))"

text \<open>
  \<open>datetime.fromtimestamp(x, tz=timezone.utc)\<close> as CPython 3.11 computes it for a float on
  a platform with a 64-bit \<open>time_t\<close> and the GNU C library.  NaN is a \<open>ValueError\<close>.
  The value is split by \<open>modf\<close> into its integral part and its fraction; the fraction is
  multiplied by \<open>1e6\<close> (a product of doubles) and rounded half-even to whole microseconds,
  with a carry into the seconds.  Seconds outside \<open>time_t\<close> are an \<open>OverflowError\<close>;
  seconds whose year does not fit the C \<open>int\<close> of \<open>gmtime\<close> are an \<open>OSError\<close>; a year
  outside 1..9999 is a \<open>ValueError\<close>.
\<close>

definition datetime_fromtimestamp_utc :: "pyfloat \<Rightarrow> pyexc + pydatetime" where
  "datetime_fromtimestamp_utc x =
     (case x of
        NaN \<Rightarrow> Inl ValueError
      | PosInf \<Rightarrow> Inl OverflowError
      | NegInf \<Rightarrow> Inl OverflowError
      | Finite d \<Rightarrow>
          (let intpart = (if d < 0 then - \<lfloor>- d\<rfloor> else \<lfloor>d\<rfloor>);
               floatpart = round_half_even (nearest_double ((d - of_int intpart) * 1000000));
               sec = (if floatpart \<ge> 1000000 then intpart + 1
                      else if floatpart < 0 then intpart - 1 else intpart);
               us = (if floatpart \<ge> 1000000 then floatpart - 1000000
                     else if floatpart < 0 then floatpart + 1000000 else floatpart)
           in if sec < - (2 ^ 63) \<or> sec \<ge> 2 ^ 63 then Inl OverflowError
              else if sec < - 67768040609740800 \<or> sec > 67768036191676799 then Inl OSError
              else if sec < - 62135596800 \<or> sec > 253402300799 then Inl ValueError
              else
                (let (y, m, d) = civil_from_days (sec div 86400); r = sec mod 86400
                 in Inr \<lparr>year = y, month = m, day = d, hour = r div 3600,
                         minute = (r mod 3600) div 60, second = r mod 60,
                         microsecond = us, tzinfo = Some 0\<rparr>)))"

text \<open>The decimal digits of a non-negative integer, \<open>str(i)\<close>, and \<open>"%0wd" % i\<close>.\<close>

function str_digits :: "int \<Rightarrow> string" where
  "str_digits n =
     (if n < 10 then [char_of (48 + n)] else str_digits (n div 10) @ [char_of (48 + n mod 10)])"
  by pat_completeness auto
termination
  by (relation "measure nat") auto

declare str_digits.simps [simp del]

definition str_int :: "int \<Rightarrow> string" where
  "str_int i = (if i < 0 then CHR ''-'' # str_digits (- i) else str_digits i)"

definition zero_pad :: "nat \<Rightarrow> int \<Rightarrow> string" where
  "zero_pad w i = (let s = str_digits i in replicate (w - length s) CHR ''0'' @ s)"

definition format_offset :: "int \<Rightarrow> string" where
  "format_offset off =
     (let a = \<bar>off\<bar>;
          hh = a div 3600000000;
          mm = (a mod 3600000000) div 60000000;
          ss = (a mod 60000000) div 1000000;
          us = a mod 1000000
      in (if off < 0 then ''-'' else ''+'') @ zero_pad 2 hh @ '':'' @ zero_pad 2 mm @
         (if ss \<noteq> 0 \<or> us \<noteq> 0
          then '':'' @ zero_pad 2 ss @ (if us \<noteq> 0 then ''.'' @ zero_pad 6 us else [])
          else []))"

definition isoformat :: "pydatetime \<Rightarrow> string" where
  "isoformat dt =
     zero_pad 4 (year dt) @ ''-'' @ zero_pad 2 (month dt) @ ''-'' @ zero_pad 2 (day dt) @ ''T'' @
     zero_pad 2 (hour dt) @ '':'' @ zero_pad 2 (minute dt) @ '':'' @ zero_pad 2 (second dt) @
     (if microsecond dt \<noteq> 0 then ''.'' @ zero_pad 6 (microsecond dt) else []) @
     (case tzinfo dt of None \<Rightarrow> [] | Some off \<Rightarrow> format_offset off)"

section \<open>Field normalizer: timestamps (services/ufdr_ingest.py)\<close>

text \<open>
  \<open>_safe_parse_timestamp\<close>.  \<open>datetime.fromisoformat\<close> is a parameter of the model; the
  result is the returned value, or the exception that leaves the function.
\<close>

definition APPLE_EPOCH_OFFSET :: rat where
  "APPLE_EPOCH_OFFSET = 978307200"

definition safe_parse_timestamp ::
  "(string \<Rightarrow> pyexc + pydatetime) \<Rightarrow> string option \<Rightarrow> pyexc + string option" where
  "safe_parse_timestamp fromisoformat value =
     (case value of
        None \<Rightarrow> Inr None
      | Some v \<Rightarrow>
          (case py_float v of
             Inl e \<Rightarrow>
               if e = TypeError \<or> e = ValueError then
                 (case fromisoformat v of
                    Inr parsed \<Rightarrow>
                      Inr (Some (isoformat
                        (if tzinfo parsed = None then parsed\<lparr>tzinfo := Some 0\<rparr> else parsed)))
                  | Inl e' \<Rightarrow> if e' = ValueError then Inr (Some v) else Inl e')
               else Inl e
           | Inr numeric_value \<Rightarrow>
               (let n1 = (if float_gt numeric_value (10 ^ 12) then float_div numeric_value 1000
                          else numeric_value);
                    n2 = (if float_gt n1 APPLE_EPOCH_OFFSET then float_sub n1 APPLE_EPOCH_OFFSET
                          else n1)
                in case datetime_fromtimestamp_utc n2 of
                     Inr parsed \<Rightarrow> Inr (Some (isoformat parsed))
                   | Inl e \<Rightarrow> if e = OverflowError \<or> e = ValueError then Inr (Some v) else Inl e)))"

text \<open>
  An instance of the library parameter that rejects every string, for closed statements
  about inputs on which \<open>fromisoformat\<close> is not reached.
\<close>

definition fromisoformat_rejecting :: "string \<Rightarrow> pyexc + pydatetime" where
  "fromisoformat_rejecting s = Inl ValueError"

section \<open>Python values shared by the pipeline\<close>

text \<open>Truthiness of an \<open>Optional[str]\<close>, and \<open>a or b\<close>.\<close>

definition truthy :: "string option \<Rightarrow> bool" where
  "truthy x = (case x of None \<Rightarrow> False | Some s \<Rightarrow> s \<noteq> [])"

definition py_or :: "string option \<Rightarrow> string option \<Rightarrow> string option" where
  "py_or a b = (if truthy a then a else b)"

definition or_str :: "string option \<Rightarrow> string \<Rightarrow> string" where
  "or_str a d = (case a of None \<Rightarrow> d | Some s \<Rightarrow> if s \<noteq> [] then s else d)"

fun join :: "string \<Rightarrow> string list \<Rightarrow> string" where
  "join sep [] = []"
| "join sep [x] = x"
| "join sep (x # y # ys) = x @ sep @ join sep (y # ys)"

text \<open>
  A path is the list of its components below the root; \<open>path_name\<close> is \<open>Path.name\<close>,
  \<open>path_str\<close> is \<open>str(path)\<close> and \<open>relative_to\<close> raises \<open>ValueError\<close> for a path that is
  not below the base.
\<close>

type_synonym path = "string list"

definition path_name :: "path \<Rightarrow> string" where
  "path_name p = (if p = [] then [] else last p)"

definition path_str :: "path \<Rightarrow> string" where
  "path_str p = (if p = [] then ''/'' else concat (map (\<lambda>c. CHR ''/'' # c) p))"

definition rel_str :: "path \<Rightarrow> string" where
  "rel_str p = (if p = [] then ''.'' else join ''/'' p)"

definition relative_to :: "path \<Rightarrow> path \<Rightarrow> pyexc + path" where
  "relative_to p base =
     (if take (length base) p = base then Inr (drop (length base) p) else Inl ValueError)"

text \<open>\<open>compose_display_name\<close> of utils/graph.py.\<close>

definition compose_display_name :: "string option \<Rightarrow> string option \<Rightarrow> string option" where
  "compose_display_name given_name family_name =
     (let filtered = List.map_filter
            (\<lambda>part. case part of None \<Rightarrow> None | Some s \<Rightarrow> if s \<noteq> [] then Some (strip s) else None)
            [given_name, family_name]
      in if filtered \<noteq> [] then Some (join '' '' filtered) else None)"

section \<open>Rows of a source database\<close>

text \<open>
  A cell of a source table is NULL, an INTEGER or a TEXT (REAL and BLOB cells are outside the
  model).  A dict is an association list in insertion order; \<open>dict_of_pairs\<close> is \<open>dict(...)\<close>
  of a list of pairs, where a later pair overwrites the value of an equal key.
\<close>

datatype sqlval = SqlNull | SqlInt int | SqlText string

definition py_str :: "sqlval \<Rightarrow> string" where
  "py_str v = (case v of SqlNull \<Rightarrow> ''None'' | SqlInt i \<Rightarrow> str_int i | SqlText s \<Rightarrow> s)"

definition fmt :: "sqlval option \<Rightarrow> string" where
  "fmt x = (case x of None \<Rightarrow> ''None'' | Some v \<Rightarrow> py_str v)"

type_synonym payload = "(string \<times> sqlval) list"

definition dict_of_pairs :: "('k \<times> 'v) list \<Rightarrow> ('k \<times> 'v) list" where
  "dict_of_pairs ps = foldl (\<lambda>d (k, v). AList.update k v d) [] ps"

definition build_payload :: "string list \<Rightarrow> sqlval list \<Rightarrow> payload" where
  "build_payload columns row = dict_of_pairs (zip (map lower (''_rowid_'' # columns)) row)"

definition TEXT_FIELDS :: "string list" where
  "TEXT_FIELDS = [''text'', ''body'', ''message'', ''content'', ''value'', ''notes'']"

definition TIMESTAMP_FIELDS :: "string list" where
  "TIMESTAMP_FIELDS = [''timestamp'', ''date'', ''created'', ''sent'', ''received'', ''time'', ''modified'']"

definition SENDER_FIELDS :: "string list" where
  "SENDER_FIELDS = [''sender'', ''from'', ''author'', ''handle'', ''address'', ''account'', ''source'']"

definition RECEIVER_FIELDS :: "string list" where
  "RECEIVER_FIELDS = [''receiver'', ''to'', ''target'', ''recipient'', ''destination'']"

definition CONVERSATION_FIELDS :: "string list" where
  "CONVERSATION_FIELDS = [''conversation'', ''thread'', ''chat'', ''dialog'', ''room'']"

definition DIRECTION_FIELDS :: "string list" where
  "DIRECTION_FIELDS = [''direction'', ''is_from_me'', ''incoming'', ''outgoing'', ''type'']"

definition MESSAGE_TYPE_FIELDS :: "string list" where
  "MESSAGE_TYPE_FIELDS = [''type'', ''message_type'', ''category'', ''service'']"

fun pick_first_value :: "payload \<Rightarrow> string list \<Rightarrow> string option" where
  "pick_first_value p [] = None"
| "pick_first_value p (key # keys) =
     (case map_of p key of
        None \<Rightarrow> pick_first_value p keys
      | Some v \<Rightarrow>
          if v \<noteq> SqlNull \<and> v \<noteq> SqlText [] then Some (py_str v) else pick_first_value p keys)"

definition looks_like_message_table :: "string list \<Rightarrow> bool" where
  "looks_like_message_table columns =
     (let lowered = map lower columns
      in list_ex (\<lambda>f. f \<in> set lowered) TEXT_FIELDS \<and> list_ex (\<lambda>f. f \<in> set lowered) TIMESTAMP_FIELDS)"

section \<open>The ledger: messages (db.py, services/ufdr_ingest.py)\<close>

text \<open>
  A table of the ledger is the list of its rows in insertion order together with the largest
  key it ever allocated, which SQLite keeps in \<open>sqlite_sequence\<close> for an \<open>AUTOINCREMENT\<close>
  key.  A new key is one more than that number and than every stored key.  An insert consumes
  its key also when \<open>OR IGNORE\<close> drops the row (SQLite 3.46).
\<close>

type_synonym 'r table = "'r list \<times> nat"

definition next_rowid :: "nat \<Rightarrow> nat list \<Rightarrow> nat" where
  "next_rowid seq ids = Suc (max seq (foldr max ids 0))"

text \<open>
  A row of the \<open>messages\<close> table.  The schema's only constraints are the autoincrement key
  and the unique index on \<open>vector_id\<close> restricted to the rows where it is not NULL.
\<close>

record message_row =
  msg_id :: nat
  msg_external_id :: string
  msg_conversation_id :: "string option"
  msg_sender :: "string option"
  msg_receiver :: "string option"
  msg_timestamp :: "string option"
  msg_body :: "string option"
  msg_direction :: "string option"
  msg_message_type :: "string option"
  msg_attachments :: sqlval
  msg_source :: string
  msg_raw_data :: payload
  msg_vector_id :: "string option"

text \<open>
  \<open>INSERT OR IGNORE INTO messages\<close>: the row is dropped when its non-NULL \<open>vector_id\<close> is
  already in the index; the result says whether a row was inserted (\<open>rowcount > 0\<close>).
\<close>

definition insert_or_ignore_message ::
  "message_row \<Rightarrow> message_row table \<Rightarrow> bool \<times> message_row table" where
  "insert_or_ignore_message row tbl =
     (let key = next_rowid (snd tbl) (map msg_id (fst tbl))
      in if msg_vector_id row \<noteq> None \<and> msg_vector_id row \<in> set (map msg_vector_id (fst tbl))
         then (False, fst tbl, key)
         else (True, fst tbl @ [row\<lparr>msg_id := key\<rparr>], key))"

text \<open>
  \<open>UPDATE messages SET vector_id = COALESCE(vector_id, ?) WHERE external_id = ?\<close>.  The
  statement changes the rows of that external id whose \<open>vector_id\<close> is NULL; the unique
  index rejects the first changed row if the value is already indexed, and the second in any
  case.  A rejected statement changes nothing and raises \<open>IntegrityError\<close>.
\<close>

definition backfill_vector_id ::
  "string \<Rightarrow> string \<Rightarrow> message_row table \<Rightarrow> pyexc + message_row table" where
  "backfill_vector_id vid ext tbl =
     (let changed = filter (\<lambda>r. msg_external_id r = ext \<and> msg_vector_id r = None) (fst tbl)
      in if changed \<noteq> [] \<and> (Some vid \<in> set (map msg_vector_id (fst tbl)) \<or> length changed \<ge> 2)
         then Inl IntegrityError
         else Inr (map (\<lambda>r. if msg_external_id r = ext \<and> msg_vector_id r = None
                               then r\<lparr>msg_vector_id := Some vid\<rparr> else r) (fst tbl),
                   snd tbl))"

text \<open>The fields that one source row contributes, as the loop body computes them.\<close>

definition message_external_id :: "path \<Rightarrow> string \<Rightarrow> payload \<Rightarrow> string" where
  "message_external_id db_path table_name p =
     path_name db_path @ '':'' @ table_name @ '':'' @ fmt (map_of p ''_rowid_'')"

definition message_vector_id :: "string option \<Rightarrow> string \<Rightarrow> string option" where
  "message_vector_id message_body external_id =
     (case message_body of
        None \<Rightarrow> None
      | Some b \<Rightarrow> if b \<noteq> [] \<and> strip b \<noteq> [] then Some (''msg:'' @ external_id) else None)"

record embedding_record =
  er_vector_id :: string
  er_text :: string
  er_metadata :: "(string \<times> string) list"

section \<open>The graph store client (services/graph.py)\<close>

text \<open>
  The store holds persons keyed by canonical id and \<open>MESSAGED\<close> relationships keyed by
  sender, receiver and message id.  \<open>gc_failures\<close> is the script of the driver: one entry for
  each write transaction that is attempted, \<open>True\<close> when that transaction raises; when the
  script is used up every transaction succeeds.  \<open>gc_person_calls\<close> and \<open>gc_message_calls\<close>
  record the identifiers of the calls that were issued, in order.
\<close>

record person_node =
  pn_raw_identifier :: "string option"
  pn_last_seen_source :: "string option"
  pn_display_name :: "string option"
  pn_given_name :: "string option"
  pn_family_name :: "string option"

record relationship =
  rel_timestamp :: "string option"
  rel_body :: "string option"
  rel_conversation_id :: "string option"
  rel_source :: "string option"

record graph_client =
  gc_enabled :: bool
  gc_failures :: "bool list"
  gc_persons :: "(string \<times> person_node) list"
  gc_relationships :: "((string \<times> string \<times> string) \<times> relationship) list"
  gc_person_calls :: "string list"
  gc_message_calls :: "string list"

definition find_person :: "string \<Rightarrow> (string \<times> person_node) list \<Rightarrow> person_node" where
  "find_person ident ps =
     (case map_of ps ident of
        Some p \<Rightarrow> p
      | None \<Rightarrow> \<lparr>pn_raw_identifier = None, pn_last_seen_source = None, pn_display_name = None,
                 pn_given_name = None, pn_family_name = None\<rparr>)"

definition register_person ::
  "graph_client \<Rightarrow> string \<Rightarrow> string option \<Rightarrow> string option \<Rightarrow> string option \<Rightarrow>
   string option \<Rightarrow> string option \<Rightarrow> bool \<times> graph_client" where
  "register_person gc identifier display_name given_name family_name raw_identifier source =
     (let gc1 = gc\<lparr>gc_person_calls := gc_person_calls gc @ [identifier]\<rparr>
      in if \<not> gc_enabled gc \<or> identifier = [] then (False, gc1)
         else
           (case gc_failures gc of
              True # fs \<Rightarrow> (False, gc1\<lparr>gc_failures := fs\<rparr>)
            | _ \<Rightarrow>
                (let p = find_person identifier (gc_persons gc);
                     p1 = p\<lparr>pn_raw_identifier :=
                              (case pn_raw_identifier p of
                                 None \<Rightarrow> Some (or_str raw_identifier identifier)
                               | Some x \<Rightarrow> Some x),
                            pn_last_seen_source := source\<rparr>;
                     p2 = p1\<lparr>pn_display_name :=
                               (if display_name \<noteq> None \<and>
                                   (pn_display_name p1 = None \<or> pn_display_name p1 = pn_raw_identifier p1)
                                then display_name else pn_display_name p1),
                             pn_given_name :=
                               (if given_name \<noteq> None \<and>
                                   (pn_given_name p1 = None \<or> pn_given_name p1 = Some [])
                                then given_name else pn_given_name p1),
                             pn_family_name :=
                               (if family_name \<noteq> None \<and>
                                   (pn_family_name p1 = None \<or> pn_family_name p1 = Some [])
                                then family_name else pn_family_name p1)\<rparr>
                 in (True, gc1\<lparr>gc_failures := tl (gc_failures gc),
                                gc_persons := AList.update identifier p2 (gc_persons gc)\<rparr>))))"

definition touch_person ::
  "string \<Rightarrow> string \<Rightarrow> string option \<Rightarrow> (string \<times> person_node) list \<Rightarrow> (string \<times> person_node) list" where
  "touch_person ident label source ps =
     (let p = find_person ident ps
      in AList.update ident
           (p\<lparr>pn_display_name := (if pn_display_name p = None then Some label else pn_display_name p),
              pn_last_seen_source := source\<rparr>) ps)"

definition register_message ::
  "graph_client \<Rightarrow> string \<Rightarrow> string \<Rightarrow> string \<Rightarrow> string option \<Rightarrow> string option \<Rightarrow>
   string option \<Rightarrow> string option \<Rightarrow> string option \<Rightarrow> string option \<Rightarrow> bool \<times> graph_client" where
  "register_message gc message_id sender_id receiver_id timestamp body conversation_id
       sender_label receiver_label source =
     (let gc1 = gc\<lparr>gc_message_calls := gc_message_calls gc @ [message_id]\<rparr>
      in if \<not> gc_enabled gc then (False, gc1)
         else if message_id = [] \<or> sender_id = [] \<or> receiver_id = [] then (False, gc1)
         else
           (case gc_failures gc of
              True # fs \<Rightarrow> (False, gc1\<lparr>gc_failures := fs\<rparr>)
            | _ \<Rightarrow>
                (let ps1 = touch_person sender_id (or_str sender_label sender_id) source (gc_persons gc);
                     ps2 = touch_person receiver_id (or_str receiver_label receiver_id) source ps1;
                     rels = AList.update (sender_id, receiver_id, message_id)
                              \<lparr>rel_timestamp = timestamp, rel_body = body,
                               rel_conversation_id = conversation_id, rel_source = source\<rparr>
                              (gc_relationships gc)
                 in (True, gc1\<lparr>gc_failures := tl (gc_failures gc), gc_persons := ps2,
                                gc_relationships := rels\<rparr>))))"

section \<open>Identity and graph synchronizer (services/ufdr_ingest.py)\<close>

record graph_stats =
  contacts_registered :: nat
  relationships_registered :: nat
  seen_contact_identifiers :: "string set"
  seen_message_ids :: "string set"

definition new_graph_stats :: graph_stats where
  "new_graph_stats = \<lparr>contacts_registered = 0, relationships_registered = 0,
                      seen_contact_identifiers = {}, seen_message_ids = {}\<rparr>"

text \<open>
  What a run mutates outside the ledger: the graph client, the process-wide
  \<open>CONTACT_ALIAS_MAP\<close> and the \<open>GraphStats\<close> of the run.
\<close>

record graph_ctx =
  ctx_client :: graph_client
  ctx_alias :: "(string \<times> string) list"
  ctx_stats :: "graph_stats option"

definition contact_identifiers ::
  "string option \<Rightarrow> string option \<Rightarrow> string option \<Rightarrow> (string \<times> string) list" where
  "contact_identifiers phone_number email display_name =
     (let identifiers = List.map_filter
            (\<lambda>raw. case canonicalize_actor raw of
                      None \<Rightarrow> None
                    | Some canonical \<Rightarrow>
                        if canonical \<noteq> [] then Some (canonical, or_str raw canonical) else None)
            [phone_number, email]
      in if identifiers = [] \<and> truthy display_name then
           (case (canonicalize_actor display_name, display_name) of
              (Some canonical, Some dn) \<Rightarrow> if canonical \<noteq> [] then [(canonical, dn)] else []
            | _ \<Rightarrow> [])
         else identifiers)"

fun register_identifiers ::
  "(string \<times> string) list \<Rightarrow> string option \<Rightarrow> string option \<Rightarrow> string option \<Rightarrow> string \<Rightarrow>
   graph_ctx \<Rightarrow> graph_ctx" where
  "register_identifiers [] preferred_name given_name family_name source ctx = ctx"
| "register_identifiers ((canonical, raw) # rest) preferred_name given_name family_name source ctx =
     (let (success, gc') = register_person (ctx_client ctx) canonical preferred_name given_name
                             family_name (Some raw) (Some source);
          ctx1 = ctx\<lparr>ctx_client := gc'\<rparr>;
          ctx2 =
            (if success then
               ctx1\<lparr>ctx_stats :=
                       (case ctx_stats ctx1 of
                          None \<Rightarrow> None
                        | Some st \<Rightarrow>
                            if canonical \<notin> seen_contact_identifiers st
                            then Some (st\<lparr>seen_contact_identifiers :=
                                             insert canonical (seen_contact_identifiers st),
                                           contacts_registered := contacts_registered st + 1\<rparr>)
                            else Some st),
                     ctx_alias :=
                       (if truthy (py_or preferred_name (Some raw))
                        then AList.update canonical (or_str preferred_name raw) (ctx_alias ctx1)
                        else ctx_alias ctx1)\<rparr>
             else ctx1)
      in register_identifiers rest preferred_name given_name family_name source ctx2)"

definition register_contact_with_graph ::
  "string option \<Rightarrow> string option \<Rightarrow> string option \<Rightarrow> string option \<Rightarrow> string option \<Rightarrow>
   string \<Rightarrow> graph_ctx \<Rightarrow> graph_ctx" where
  "register_contact_with_graph display_name given_name family_name phone_number email source ctx =
     (if \<not> gc_enabled (ctx_client ctx) then ctx
      else
        (let identifiers = contact_identifiers phone_number email display_name;
             preferred_name =
               py_or (py_or display_name (compose_display_name given_name family_name))
                 (case identifiers of [] \<Rightarrow> None | (canonical, raw) # rest \<Rightarrow> Some raw)
         in register_identifiers identifiers preferred_name given_name family_name source ctx))"

definition register_message_with_graph ::
  "string \<Rightarrow> string option \<Rightarrow> string option \<Rightarrow> string option \<Rightarrow> string option \<Rightarrow>
   string option \<Rightarrow> string \<Rightarrow> graph_ctx \<Rightarrow> graph_ctx" where
  "register_message_with_graph message_id sender receiver timestamp_iso message_body
       conversation_id source ctx =
     (if \<not> gc_enabled (ctx_client ctx) then ctx
      else
        (case (canonicalize_actor sender, canonicalize_actor receiver) of
           (Some sender_id, Some receiver_id) \<Rightarrow>
             if sender_id = [] \<or> receiver_id = [] then ctx
             else
               (let sender_label = or_str (py_or (map_of (ctx_alias ctx) sender_id) sender) sender_id;
                    receiver_label =
                      or_str (py_or (map_of (ctx_alias ctx) receiver_id) receiver) receiver_id;
                    (success, gc') = register_message (ctx_client ctx) message_id sender_id
                                       receiver_id timestamp_iso message_body conversation_id
                                       (Some sender_label) (Some receiver_label) (Some source);
                    ctx1 = ctx\<lparr>ctx_client := gc'\<rparr>
                in if success then
                     ctx1\<lparr>ctx_stats :=
                             (case ctx_stats ctx1 of
                                None \<Rightarrow> None
                              | Some st \<Rightarrow>
                                  if message_id \<notin> seen_message_ids st
                                  then Some (st\<lparr>seen_message_ids := insert message_id (seen_message_ids st),
                                                 relationships_registered :=
                                                   relationships_registered st + 1\<rparr>)
                                  else Some st),
                           ctx_alias :=
                             AList.update receiver_id receiver_label
                               (AList.update sender_id sender_label (ctx_alias ctx1))\<rparr>
                   else ctx1)
         | _ \<Rightarrow> ctx))"

section \<open>Message ingestion (services/ufdr_ingest.py)\<close>

text \<open>
  A source table: its name, its columns and its rows, each with its \<open>rowid\<close>.  A source
  database is a list of tables, or a file that sqlite cannot read, on which the first query
  raises \<open>DatabaseError\<close>.
\<close>

record src_table =
  st_name :: string
  st_columns :: "string list"
  st_rows :: "(int \<times> sqlval list) list"

datatype src_db = Unreadable | Database "src_table list"

text \<open>
  One iteration of the loop of \<open>_ingest_messages_from_table\<close> on the row
  \<open>SELECT rowid AS _rowid_, *\<close> returned.  The state is the \<open>messages\<close> table, the count
  of inserted rows, the embedding records and the graph context.
\<close>

definition ingest_message_row ::
  "(string \<Rightarrow> pyexc + pydatetime) \<Rightarrow> path \<Rightarrow> string \<Rightarrow> string list \<Rightarrow> sqlval list \<Rightarrow>
   message_row table \<times> nat \<times> embedding_record list \<times> graph_ctx \<Rightarrow>
   pyexc + message_row table \<times> nat \<times> embedding_record list \<times> graph_ctx" where
  "ingest_message_row fromisoformat db_path table_name columns row st =
     (case st of (tbl, ingested, embedding_records, ctx) \<Rightarrow>
        (let p = build_payload columns row;
             message_body = pick_first_value p TEXT_FIELDS;
             timestamp_raw = pick_first_value p TIMESTAMP_FIELDS
         in case safe_parse_timestamp fromisoformat timestamp_raw of
              Inl e \<Rightarrow> Inl e
            | Inr timestamp_iso \<Rightarrow>
                (let sender = pick_first_value p SENDER_FIELDS;
                     receiver = pick_first_value p RECEIVER_FIELDS;
                     conversation_id = pick_first_value p CONVERSATION_FIELDS;
                     direction = pick_first_value p DIRECTION_FIELDS;
                     message_type = pick_first_value p MESSAGE_TYPE_FIELDS;
                     external_id = message_external_id db_path table_name p;
                     vector_id = message_vector_id message_body external_id;
                     new_row = \<lparr>msg_id = 0, msg_external_id = external_id,
                                msg_conversation_id = conversation_id, msg_sender = sender,
                                msg_receiver = receiver, msg_timestamp = timestamp_iso,
                                msg_body = message_body, msg_direction = direction,
                                msg_message_type = message_type,
                                msg_attachments =
                                  (case map_of p ''attachments'' of None \<Rightarrow> SqlNull | Some a \<Rightarrow> a),
                                msg_source = path_str db_path, msg_raw_data = p,
                                msg_vector_id = vector_id\<rparr>;
                     (inserted, tbl1) = insert_or_ignore_message new_row tbl
                 in case (if inserted then Inr (tbl1, ingested + 1)
                          else (case vector_id of
                                  None \<Rightarrow> Inr (tbl1, ingested)
                                | Some vid \<Rightarrow>
                                    (case backfill_vector_id vid external_id tbl1 of
                                       Inl e \<Rightarrow> Inl e
                                     | Inr tbl2 \<Rightarrow> Inr (tbl2, ingested)))) of
                      Inl e \<Rightarrow> Inl e
                    | Inr (tbl2, ingested') \<Rightarrow>
                        (let ctx' = register_message_with_graph external_id sender receiver
                                      timestamp_iso message_body conversation_id (path_str db_path) ctx;
                             embedding_records' =
                               (case vector_id of
                                  None \<Rightarrow> embedding_records
                                | Some vid \<Rightarrow>
                                    embedding_records @
                                    [\<lparr>er_vector_id = vid,
                                      er_text = (case message_body of None \<Rightarrow> [] | Some b \<Rightarrow> b),
                                      er_metadata =
                                        [(''external_id'', external_id),
                                         (''conversation_id'', or_str conversation_id []),
                                         (''sender'', or_str sender []),
                                         (''receiver'', or_str receiver []),
                                         (''timestamp'', or_str timestamp_iso []),
                                         (''source'', path_str db_path),
                                         (''table'', table_name)]\<rparr>])
                         in Inr (tbl2, ingested', embedding_records', ctx')))))"

text \<open>
  The loop.  It stops at the first row that raises and returns the exception with the state
  reached before that row.
\<close>

fun ingest_message_rows ::
  "(string \<Rightarrow> pyexc + pydatetime) \<Rightarrow> path \<Rightarrow> string \<Rightarrow> string list \<Rightarrow> sqlval list list \<Rightarrow>
   message_row table \<times> nat \<times> embedding_record list \<times> graph_ctx \<Rightarrow>
   pyexc option \<times> message_row table \<times> nat \<times> embedding_record list \<times> graph_ctx" where
  "ingest_message_rows fromisoformat db_path table_name columns [] st = (None, st)"
| "ingest_message_rows fromisoformat db_path table_name columns (row # rows) st =
     (case ingest_message_row fromisoformat db_path table_name columns row st of
        Inl e \<Rightarrow> (Some e, st)
      | Inr st' \<Rightarrow> ingest_message_rows fromisoformat db_path table_name columns rows st')"

text \<open>
  \<open>_ingest_messages_from_table\<close>.  The rows are written in one transaction that is
  committed after the loop: when a row raises, the connection is closed without a commit and
  the table is as it was before the call, while the graph context keeps what the earlier rows
  did to it.
\<close>

definition ingest_messages_from_table ::
  "(string \<Rightarrow> pyexc + pydatetime) \<Rightarrow> path \<Rightarrow> src_table \<Rightarrow> message_row table \<times> graph_ctx \<Rightarrow>
   (pyexc + nat \<times> embedding_record list) \<times> message_row table \<times> graph_ctx" where
  "ingest_messages_from_table fromisoformat db_path t st =
     (case st of (tbl, ctx) \<Rightarrow>
        (let rows = map (\<lambda>(rowid, cells). SqlInt rowid # cells) (st_rows t)
         in if rows = [] then (Inr (0, []), tbl, ctx)
            else
              (case ingest_message_rows fromisoformat db_path (st_name t) (st_columns t) rows
                      (tbl, 0, [], ctx) of
                 (Some e, (tbl', ingested, embedding_records, ctx')) \<Rightarrow> (Inl e, tbl, ctx')
               | (None, (tbl', ingested, embedding_records, ctx')) \<Rightarrow>
                   (Inr (ingested, embedding_records), tbl', ctx'))))"

text \<open>The tables that \<open>_iter_user_tables\<close> yields: those whose name is not \<open>LIKE 'sqlite_%'\<close>.\<close>

definition is_user_table :: "src_table \<Rightarrow> bool" where
  "is_user_table t = (\<not> (length (st_name t) \<ge> 7 \<and> lower (take 6 (st_name t)) = ''sqlite''))"

fun ingest_message_tables ::
  "(string \<Rightarrow> pyexc + pydatetime) \<Rightarrow> path \<Rightarrow> src_table list \<Rightarrow>
   nat \<times> embedding_record list \<Rightarrow> message_row table \<times> graph_ctx \<Rightarrow>
   (pyexc + nat \<times> embedding_record list) \<times> message_row table \<times> graph_ctx" where
  "ingest_message_tables fromisoformat db_path [] acc st = (Inr acc, st)"
| "ingest_message_tables fromisoformat db_path (t # ts) acc st =
     (if \<not> looks_like_message_table (st_columns t)
      then ingest_message_tables fromisoformat db_path ts acc st
      else
        (case ingest_messages_from_table fromisoformat db_path t st of
           (Inl e, st') \<Rightarrow> (Inl e, st')
         | (Inr (processed, records), st') \<Rightarrow>
             ingest_message_tables fromisoformat db_path ts
               (fst acc + processed, snd acc @ records) st'))"

definition ingest_messages_from_sqlite ::
  "(string \<Rightarrow> pyexc + pydatetime) \<Rightarrow> path \<Rightarrow> src_db \<Rightarrow> message_row table \<times> graph_ctx \<Rightarrow>
   (pyexc + nat \<times> embedding_record list) \<times> message_row table \<times> graph_ctx" where
  "ingest_messages_from_sqlite fromisoformat db_path db st =
     (case db of
        Unreadable \<Rightarrow> (Inl DatabaseError, st)
      | Database tables \<Rightarrow>
          ingest_message_tables fromisoformat db_path (filter is_user_table tables) (0, []) st)"

section \<open>Contact ingestion (services/ufdr_ingest.py)\<close>

text \<open>
  A row of the \<open>contacts\<close> table; the table has no constraint besides its autoincrement key,
  so that an insert appends the row under a new key.
  Truthiness of a cell, \<open>a or b\<close> on cells, and the text a cell is carried as.
\<close>

record contact_row =
  con_id :: nat
  con_external_id :: string
  con_display_name :: "string option"
  con_given_name :: "string option"
  con_family_name :: "string option"
  con_phone_number :: "string option"
  con_email :: "string option"
  con_source :: string
  con_raw_data :: payload

definition insert_contact :: "contact_row \<Rightarrow> contact_row table \<Rightarrow> contact_row table" where
  "insert_contact row tbl =
     (let key = next_rowid (snd tbl) (map con_id (fst tbl))
      in (fst tbl @ [row\<lparr>con_id := key\<rparr>], key))"

definition cell_truthy :: "sqlval option \<Rightarrow> bool" where
  "cell_truthy c =
     (case c of
        None \<Rightarrow> False
      | Some SqlNull \<Rightarrow> False
      | Some (SqlInt i) \<Rightarrow> i \<noteq> 0
      | Some (SqlText s) \<Rightarrow> s \<noteq> [])"

definition cell_or :: "sqlval option \<Rightarrow> sqlval option \<Rightarrow> sqlval option" where
  "cell_or a b = (if cell_truthy a then a else b)"

definition cell_text :: "sqlval option \<Rightarrow> string option" where
  "cell_text c =
     (case c of
        None \<Rightarrow> None
      | Some SqlNull \<Rightarrow> None
      | Some v \<Rightarrow> Some (py_str v))"

definition compose_display_name_payload :: "payload \<Rightarrow> string option" where
  "compose_display_name_payload p =
     (let filtered = List.map_filter
            (\<lambda>key. if cell_truthy (map_of p key) then Some (fmt (map_of p key)) else None)
            [''first'', ''middle'', ''last'']
      in if filtered \<noteq> [] then Some (join '' '' filtered) else None)"

definition looks_like_contact_table :: "string list \<Rightarrow> bool" where
  "looks_like_contact_table columns =
     (let lowered = map lower columns
      in (''contact'' \<in> set lowered \<or> list_ex (\<lambda>f. f \<in> set lowered) [''first'', ''last'', ''name'']) \<and>
         list_ex (\<lambda>f. f \<in> set lowered) [''phone'', ''number'', ''email'', ''address''])"

text \<open>The five attributes of a contact, as the loop body of \<open>_ingest_contacts_from_table\<close>
  reads them from the payload: display name, given name, family name, phone number, email.\<close>

definition contact_fields ::
  "payload \<Rightarrow> string option \<times> string option \<times> string option \<times> string option \<times> string option" where
  "contact_fields p =
     (py_or (pick_first_value p [''display_name'', ''name'', ''full_name'', ''fullname''])
        (compose_display_name_payload p),
      cell_text (cell_or (cell_or (map_of p ''first'') (map_of p ''given'')) (map_of p ''firstname'')),
      cell_text (cell_or (cell_or (map_of p ''last'') (map_of p ''surname'')) (map_of p ''lastname'')),
      pick_first_value p [''phone'', ''phone_number'', ''number'', ''mobile'', ''msisdn'', ''home'', ''work''],
      pick_first_value p [''email'', ''email_address'', ''mail''])"

definition ingest_contact_row ::
  "path \<Rightarrow> string \<Rightarrow> string list \<Rightarrow> sqlval list \<Rightarrow> contact_row table \<times> nat \<times> graph_ctx \<Rightarrow>
   contact_row table \<times> nat \<times> graph_ctx" where
  "ingest_contact_row db_path table_name columns row st =
     (case st of (tbl, ingested, ctx) \<Rightarrow>
        (let p = build_payload columns row
         in case contact_fields p of
              (display_name, given_name, family_name, phone_number, email) \<Rightarrow>
                (insert_contact
                   \<lparr>con_id = 0,
                    con_external_id =
                      path_name db_path @ '':'' @ table_name @ '':'' @ fmt (map_of p ''_rowid_''),
                    con_display_name = display_name, con_given_name = given_name,
                    con_family_name = family_name, con_phone_number = phone_number,
                    con_email = email, con_source = path_str db_path, con_raw_data = p\<rparr> tbl,
                 ingested + 1,
                 register_contact_with_graph display_name given_name family_name phone_number
                   email (path_str db_path) ctx)))"

definition ingest_contacts_from_table ::
  "path \<Rightarrow> src_table \<Rightarrow> contact_row table \<times> graph_ctx \<Rightarrow> nat \<times> contact_row table \<times> graph_ctx" where
  "ingest_contacts_from_table db_path t st =
     (case st of (tbl, ctx) \<Rightarrow>
        (case foldl (\<lambda>s row. ingest_contact_row db_path (st_name t) (st_columns t) row s)
                (tbl, 0, ctx) (map (\<lambda>(rowid, cells). SqlInt rowid # cells) (st_rows t)) of
           (tbl', ingested, ctx') \<Rightarrow> (ingested, tbl', ctx')))"

definition ingest_contacts_from_sqlite ::
  "path \<Rightarrow> src_db \<Rightarrow> contact_row table \<times> graph_ctx \<Rightarrow> (pyexc + nat) \<times> contact_row table \<times> graph_ctx" where
  "ingest_contacts_from_sqlite db_path db st =
     (case db of
        Unreadable \<Rightarrow> (Inl DatabaseError, st)
      | Database tables \<Rightarrow>
          (case foldl (\<lambda>(total_ingested, s) t.
                         case ingest_contacts_from_table db_path t s of
                           (ingested, s') \<Rightarrow> (total_ingested + ingested, s'))
                  (0, st)
                  (filter (\<lambda>t. looks_like_contact_table (st_columns t)) (filter is_user_table tables)) of
             (total_ingested, st') \<Rightarrow> (Inr total_ingested, st')))"

text \<open>The canonical identifiers that the contact of a source row is registered under.\<close>

definition row_identifiers :: "string list \<Rightarrow> sqlval list \<Rightarrow> string list" where
  "row_identifiers columns row =
     (case contact_fields (build_payload columns row) of
        (display_name, given_name, family_name, phone_number, email) \<Rightarrow>
          map fst (contact_identifiers phone_number email display_name))"

text \<open>The identifiers seen so far in the run, and the identifiers that all the rows of a
  table are registered under, in call order.\<close>

definition seen_of :: "graph_ctx \<Rightarrow> string set" where
  "seen_of ctx = (case ctx_stats ctx of None \<Rightarrow> {} | Some st \<Rightarrow> seen_contact_identifiers st)"

definition table_identifiers :: "src_table \<Rightarrow> string list" where
  "table_identifiers t =
     concat (map (\<lambda>(rowid, cells). row_identifiers (st_columns t) (SqlInt rowid # cells)) (st_rows t))"

text \<open>The counter of registered contacts counts the seen identifiers, each once.\<close>

definition contacts_counted_once :: "graph_ctx \<Rightarrow> bool" where
  "contacts_counted_once ctx =
     (case ctx_stats ctx of
        None \<Rightarrow> False
      | Some st \<Rightarrow>
          finite (seen_contact_identifiers st) \<and>
          contacts_registered st = card (seen_contact_identifiers st))"

text \<open>
  The identifiers whose \<open>register_person\<close> call succeeds when calls for the given
  identifiers are issued in order against a driver with the failure script \<open>fs\<close>: a call
  fails exactly when its entry of the script says so.
\<close>

definition call_succeeds :: "bool list \<Rightarrow> bool" where
  "call_succeeds fs = (case fs of True # rest \<Rightarrow> False | _ \<Rightarrow> True)"

fun registered_ok :: "bool list \<Rightarrow> string list \<Rightarrow> string list" where
  "registered_ok fs [] = []"
| "registered_ok fs (c # cs) = (if call_succeeds fs then [c] else []) @ registered_ok (tl fs) cs"

section \<open>The ledger: images (db.py, services/ufdr_ingest.py)\<close>

text \<open>
  A metadata dict holds strings, integers and lists of strings.  The \<open>metadata\<close> column holds
  NULL, a text that \<open>json.loads\<close> rejects, or the JSON text of a dict (the only values the
  pipeline writes); the JSON text of a dict is identified with the dict.
\<close>

datatype jval = JStr string | JInt int | JList "string list"

type_synonym metadata = "(string \<times> jval) list"

datatype meta_col = MetaNull | MetaInvalid | MetaDict metadata

record image_row =
  img_id :: nat
  img_file_path :: string
  img_relative_path :: "string option"
  img_description :: "string option"
  img_tags :: "string option"
  img_detected_text :: "string option"
  img_source :: "string option"
  img_metadata :: meta_col
  img_vector_id :: "string option"
  img_caption_status :: "string option"
  img_caption_error :: "string option"
  img_last_captioned_at :: "string option"

record image_inventory_record =
  iir_id :: nat
  iir_file_path :: string
  iir_relative_path :: string
  iir_metadata :: metadata

text \<open>\<open>{**a, **b}\<close>: the keys of \<open>a\<close> in their order, with the values of \<open>b\<close> where \<open>b\<close> has the
  key, then the other keys of \<open>b\<close>.\<close>

definition dict_merge :: "('k \<times> 'v) list \<Rightarrow> ('k \<times> 'v) list \<Rightarrow> ('k \<times> 'v) list" where
  "dict_merge a b = foldl (\<lambda>d (k, v). AList.update k v d) a b"

text \<open>\<open>Path.suffix\<close> of a file name.\<close>

definition name_suffix :: "string \<Rightarrow> string" where
  "name_suffix name =
     (let ext = rev (takeWhile (\<lambda>c. c \<noteq> CHR ''.'') (rev name))
      in if CHR ''.'' \<notin> set name \<or> ext = [] \<or> length ext + 1 = length name then []
         else CHR ''.'' # ext)"

text \<open>
  \<open>_build_image_metadata\<close>.  The file system and \<open>mimetypes\<close> are parameters: \<open>file_stat\<close>
  gives the size of a file and its modification and creation times as \<open>datetime\<close> values, or
  nothing when \<open>stat\<close> fails; \<open>guess_type\<close> gives the MIME type of a path, if any.
\<close>

record image_env =
  file_stat :: "path \<Rightarrow> (int \<times> pydatetime \<times> pydatetime) option"
  guess_type :: "string \<Rightarrow> string option"

definition build_image_metadata :: "image_env \<Rightarrow> path \<Rightarrow> string \<Rightarrow> path \<Rightarrow> metadata" where
  "build_image_metadata env image_path relative_path extraction_dir =
     (let m0 = [(''file_path'', JStr (path_str image_path)),
                (''relative_path'', JStr relative_path),
                (''extraction_id'', JStr (path_name extraction_dir))];
          m1 = (case file_stat env image_path of
                  None \<Rightarrow> m0
                | Some (size_bytes, mtime, ctime) \<Rightarrow>
                    AList.update ''created_at'' (JStr (isoformat ctime))
                      (AList.update ''modified_at'' (JStr (isoformat mtime))
                         (AList.update ''size_bytes'' (JInt size_bytes) m0)))
      in case guess_type env (path_str image_path) of
           Some mime_type \<Rightarrow>
             if mime_type \<noteq> [] then AList.update ''mime_type'' (JStr mime_type) m1
             else if lower (name_suffix (path_name image_path)) \<in> {''.heic'', ''.heif''}
               then AList.update ''mime_type'' (JStr ''image/heic'') m1
             else m1
         | None \<Rightarrow>
             if lower (name_suffix (path_name image_path)) \<in> {''.heic'', ''.heif''}
             then AList.update ''mime_type'' (JStr ''image/heic'') m1
             else m1)"

text \<open>
  \<open>INSERT OR IGNORE INTO images\<close>: \<open>file_path\<close> is unique, and a new row has no vector id.
  The result is the key of the inserted row, if one was inserted, and the table.
\<close>

definition insert_or_ignore_image ::
  "string \<Rightarrow> string \<Rightarrow> metadata \<Rightarrow> image_row table \<Rightarrow> nat option \<times> image_row table" where
  "insert_or_ignore_image file_path relative_path md tbl =
     (let new_id = next_rowid (snd tbl) (map img_id (fst tbl))
      in if file_path \<in> set (map img_file_path (fst tbl)) then (None, fst tbl, new_id)
         else
           (Some new_id,
            fst tbl @ [\<lparr>img_id = new_id, img_file_path = file_path,
                          img_relative_path = Some relative_path, img_description = None,
                          img_tags = None, img_detected_text = None, img_source = Some ''ufdr'',
                          img_metadata = MetaDict md, img_vector_id = None,
                          img_caption_status = Some ''pending'', img_caption_error = None,
                          img_last_captioned_at = None\<rparr>],
            new_id))"

definition update_images :: "nat \<Rightarrow> (image_row \<Rightarrow> image_row) \<Rightarrow> image_row list \<Rightarrow> image_row list" where
  "update_images rid f tbl = map (\<lambda>r. if img_id r = rid then f r else r) tbl"

text \<open>
  One iteration of the loop of \<open>log_image_inventory\<close>.  The state is the \<open>images\<close> table, the
  records collected for captioning, the paths seen in this call and the count of processed
  paths.
\<close>

definition log_image ::
  "image_env \<Rightarrow> path \<Rightarrow> path \<Rightarrow>
   image_row table \<times> image_inventory_record list \<times> string set \<times> nat \<Rightarrow>
   image_row table \<times> image_inventory_record list \<times> string set \<times> nat" where
  "log_image env extraction_dir image_path st =
     (case st of (tbl, records, seen_paths, processed) \<Rightarrow>
        (let normalized_path = path_str image_path
         in if normalized_path \<in> seen_paths then st
            else
              (let seen_paths' = insert normalized_path seen_paths;
                   processed' = processed + 1;
                   relative_path = (case relative_to image_path extraction_dir of
                                      Inr rel \<Rightarrow> rel_str rel
                                    | Inl e \<Rightarrow> path_str image_path);
                   md = build_image_metadata env image_path relative_path extraction_dir
               in case insert_or_ignore_image normalized_path relative_path md tbl of
                    (Some image_id, tbl1) \<Rightarrow>
                      (tbl1,
                       records @ [\<lparr>iir_id = image_id, iir_file_path = normalized_path,
                                   iir_relative_path = relative_path, iir_metadata = md\<rparr>],
                       seen_paths', processed')
                  | (None, tbl1) \<Rightarrow>
                      (case find (\<lambda>r. img_file_path r = normalized_path) (fst tbl1) of
                         None \<Rightarrow> (tbl1, records, seen_paths', processed')
                       | Some existing_row \<Rightarrow>
                           (let image_id = img_id existing_row;
                                existing_status = or_str (img_caption_status existing_row) [];
                                existing_metadata =
                                  (case img_metadata existing_row of
                                     MetaDict d \<Rightarrow> d
                                   | _ \<Rightarrow> []);
                                merged_metadata = dict_merge existing_metadata md;
                                tbl2 = update_images image_id
                                         (\<lambda>r. r\<lparr>img_relative_path := Some relative_path,
                                                 img_source := Some ''ufdr'',
                                                 img_metadata := MetaDict merged_metadata\<rparr>)
                                         (fst tbl1)
                            in if lower existing_status \<noteq> ''done'' then
                                 ((update_images image_id
                                     (\<lambda>r. r\<lparr>img_caption_status := Some ''pending''\<rparr>) tbl2,
                                   snd tbl1),
                                  records @ [\<lparr>iir_id = image_id, iir_file_path = normalized_path,
                                              iir_relative_path = relative_path,
                                              iir_metadata = merged_metadata\<rparr>],
                                  seen_paths', processed')
                               else ((tbl2, snd tbl1), records, seen_paths', processed'))))))"

definition log_image_inventory ::
  "image_env \<Rightarrow> path list \<Rightarrow> path \<Rightarrow> image_row table \<Rightarrow>
   (nat \<times> image_inventory_record list) \<times> image_row table" where
  "log_image_inventory env image_paths extraction_dir tbl =
     (if image_paths = [] then ((0, []), tbl)
      else
        (case foldl (\<lambda>st image_path. log_image env extraction_dir image_path st)
                (tbl, [], {}, 0) image_paths of
           (tbl', records, seen_paths, processed) \<Rightarrow> ((processed, records), tbl')))"

section \<open>Image captioner (services/ufdr_ingest.py)\<close>

record image_description =
  caption :: string
  tags :: "string list"
  detected_text :: "string option"

text \<open>
  The collaborators of the captioner: \<open>describe_image\<close> returns a description or raises an
  exception, given by its text \<open>str(exc)\<close>; \<open>now\<close> is the clock, read once for each record,
  as the ISO text of the instant.
\<close>

record caption_env =
  describe_image :: "string \<Rightarrow> string + image_description"
  now :: "nat \<Rightarrow> string"

definition image_vector_id :: "nat \<Rightarrow> string" where
  "image_vector_id image_id = ''img:'' @ str_digits (int image_id)"

definition image_embedding :: "image_inventory_record \<Rightarrow> image_description \<Rightarrow> embedding_record" where
  "image_embedding record description =
     \<lparr>er_vector_id = image_vector_id (iir_id record),
      er_text =
        join [CHR 0x0A]
          ([caption description] @
           (if tags description \<noteq> [] then [''Tags: '' @ join '', '' (tags description)] else []) @
           (if truthy (detected_text description)
            then [''Detected text: '' @ or_str (detected_text description) []] else [])),
      er_metadata =
        [(''type'', ''image''), (''image_id'', str_digits (int (iir_id record))),
         (''relative_path'', iir_relative_path record), (''source'', ''ufdr''),
         (''caption_source'', ''gemini_vision''), (''caption'', take 256 (caption description))] @
        (if tags description \<noteq> [] then [(''tags'', join '', '' (tags description))] else [])\<rparr>"

definition mark_failed :: "nat \<Rightarrow> string \<Rightarrow> string \<Rightarrow> image_row list \<Rightarrow> image_row list" where
  "mark_failed rid msg timestamp_iso tbl =
     update_images rid
       (\<lambda>r. r\<lparr>img_caption_status := Some ''failed'', img_caption_error := Some (take 512 msg),
               img_last_captioned_at := Some timestamp_iso\<rparr>) tbl"

text \<open>
  One iteration of the loop of \<open>describe_and_index_images\<close>, for the record at position
  \<open>i\<close>.  The \<open>UPDATE\<close> of the success branch sets the vector id and is rejected by the
  unique index on \<open>images.vector_id\<close> when another row holds that id; the
  \<open>IntegrityError\<close> is raised inside the \<open>try\<close> and handled like a failed vision call.
\<close>

definition caption_image ::
  "caption_env \<Rightarrow> nat \<Rightarrow> image_inventory_record \<Rightarrow>
   image_row list \<times> nat \<times> embedding_record list \<Rightarrow>
   image_row list \<times> nat \<times> embedding_record list" where
  "caption_image env i record st =
     (case st of (tbl, successes, embeddings) \<Rightarrow>
        (let timestamp_iso = now env i
         in case describe_image env (iir_file_path record) of
              Inl msg \<Rightarrow> (mark_failed (iir_id record) msg timestamp_iso tbl, successes, embeddings)
            | Inr description \<Rightarrow>
                (let tag_string = (if tags description \<noteq> []
                                   then Some (join '', '' (tags description)) else None);
                     vector_id = image_vector_id (iir_id record);
                     m1 = AList.update ''caption'' (JStr (caption description))
                            (AList.update ''tags'' (JList (tags description)) (iir_metadata record));
                     metadata_update =
                       (if truthy (detected_text description)
                        then AList.update ''detected_text''
                               (JStr (or_str (detected_text description) [])) m1
                        else m1)
                 in if iir_id record \<in> set (map img_id tbl) \<and>
                       list_ex (\<lambda>r. img_id r \<noteq> iir_id record \<and> img_vector_id r = Some vector_id) tbl
                    then (mark_failed (iir_id record) ''UNIQUE constraint failed: images.vector_id''
                            timestamp_iso tbl, successes, embeddings)
                    else
                      (update_images (iir_id record)
                         (\<lambda>r. r\<lparr>img_description := Some (caption description),
                                 img_tags := tag_string,
                                 img_detected_text := detected_text description,
                                 img_vector_id := Some vector_id,
                                 img_caption_status := Some ''done'',
                                 img_caption_error := None,
                                 img_last_captioned_at := Some timestamp_iso,
                                 img_metadata := MetaDict metadata_update\<rparr>) tbl,
                       successes + 1,
                       embeddings @ [image_embedding record description]))))"

fun caption_images ::
  "caption_env \<Rightarrow> nat \<Rightarrow> image_inventory_record list \<Rightarrow>
   image_row list \<times> nat \<times> embedding_record list \<Rightarrow>
   image_row list \<times> nat \<times> embedding_record list" where
  "caption_images env i [] st = st"
| "caption_images env i (record # records) st =
     caption_images env (Suc i) records (caption_image env i record st)"

text \<open>
  \<open>describe_and_index_images\<close>.  \<open>get_gemini_vision_client\<close> raises when the client cannot
  be built; \<open>vision\<close> is then the text of that exception, and the call raises before any
  record is touched.
\<close>

definition describe_and_index_images ::
  "(string + caption_env) \<Rightarrow> image_inventory_record list \<Rightarrow> image_row list \<Rightarrow>
   (string + nat \<times> embedding_record list) \<times> image_row list" where
  "describe_and_index_images vision records tbl =
     (if records = [] then (Inr (0, []), tbl)
      else
        (case vision of
           Inl msg \<Rightarrow> (Inl msg, tbl)
         | Inr env \<Rightarrow>
             (case caption_images env 0 records (tbl, 0, []) of
                (tbl', successes, embeddings) \<Rightarrow> (Inr (successes, embeddings), tbl'))))"

section \<open>Contact markup and system properties (services/ufdr_ingest.py)\<close>

text \<open>
  A \<open>contact\<close> element of a parsed XML file: the texts that \<open>findtext\<close> returns for the
  five children the loop reads, and all its children for \<open>raw_data\<close>.
\<close>

record xml_contact =
  xc_display_name :: "string option"
  xc_first_name :: "string option"
  xc_last_name :: "string option"
  xc_phone :: "string option"
  xc_email :: "string option"
  xc_children :: "(string \<times> string option) list"

definition ingest_xml_contact ::
  "path \<Rightarrow> xml_contact \<Rightarrow> contact_row table \<times> nat \<times> graph_ctx \<Rightarrow> contact_row table \<times> nat \<times> graph_ctx" where
  "ingest_xml_contact xml_path c st =
     (case st of (tbl, count_so_far, ctx) \<Rightarrow>
        (insert_contact
           \<lparr>con_id = 0,
            con_external_id = path_name xml_path @ '':'' @ str_digits (int count_so_far),
            con_display_name = xc_display_name c, con_given_name = xc_first_name c,
            con_family_name = xc_last_name c, con_phone_number = xc_phone c,
            con_email = xc_email c, con_source = path_str xml_path,
            con_raw_data = dict_of_pairs
              (map (\<lambda>(tag, text). (tag, case text of None \<Rightarrow> SqlNull | Some s \<Rightarrow> SqlText s))
                 (xc_children c))\<rparr> tbl,
         count_so_far + 1,
         register_contact_with_graph (xc_display_name c) (xc_first_name c) (xc_last_name c)
           (xc_phone c) (xc_email c) (path_str xml_path) ctx))"

text \<open>
  \<open>ingest_contacts_from_xml\<close>.  \<open>parsed\<close> is what \<open>ET.parse\<close> makes of the file: the
  exception it raises, or the \<open>contact\<close> elements that \<open>findall\<close> finds.
\<close>

definition ingest_contacts_from_xml ::
  "path \<Rightarrow> pyexc + xml_contact list \<Rightarrow> contact_row table \<times> graph_ctx \<Rightarrow>
   (pyexc + nat) \<times> contact_row table \<times> graph_ctx" where
  "ingest_contacts_from_xml xml_path parsed st =
     (case parsed of
        Inl e \<Rightarrow> (Inl e, st)
      | Inr contacts \<Rightarrow>
          (case foldl (\<lambda>s c. ingest_xml_contact xml_path c s) (fst st, 0, snd st) contacts of
             (tbl, count_so_far, ctx) \<Rightarrow> (Inr count_so_far, tbl, ctx)))"

text \<open>A property list, with every leaf as the text \<open>str\<close> gives it, and \<open>_flatten\<close>.\<close>

datatype plist = PDict "(string \<times> plist) list" | PArray "plist list" | PLeaf string

fun flatten :: "string \<Rightarrow> plist \<Rightarrow> (string \<times> string) list"
  and flatten_items :: "string \<Rightarrow> (string \<times> plist) list \<Rightarrow> (string \<times> string) list"
  and flatten_elements :: "string \<Rightarrow> nat \<Rightarrow> plist list \<Rightarrow> (string \<times> string) list" where
  "flatten prefix (PDict items) = flatten_items prefix items"
| "flatten prefix (PArray elements) = flatten_elements prefix 0 elements"
| "flatten prefix (PLeaf text) = [(prefix, text)]"
| "flatten_items prefix [] = []"
| "flatten_items prefix ((key, nested_value) # items) =
     flatten (if prefix \<noteq> [] then prefix @ ''.'' @ key else key) nested_value @
     flatten_items prefix items"
| "flatten_elements prefix i [] = []"
| "flatten_elements prefix i (nested_value # elements) =
     flatten (prefix @ ''['' @ str_digits (int i) @ '']'') nested_value @
     flatten_elements prefix (Suc i) elements"

text \<open>A row of the \<open>system_info\<close> table; \<open>name_stem\<close> is \<open>Path.stem\<close> of a file name.\<close>

record system_info_row =
  si_id :: nat
  si_key :: string
  si_value :: string
  si_category :: string
  si_source :: string

definition name_stem :: "string \<Rightarrow> string" where
  "name_stem name = take (length name - length (name_suffix name)) name"

definition insert_system_info ::
  "path \<Rightarrow> system_info_row table \<Rightarrow> string \<times> string \<Rightarrow> system_info_row table" where
  "insert_system_info plist_path tbl kv =
     (let key = next_rowid (snd tbl) (map si_id (fst tbl))
      in (fst tbl @ [\<lparr>si_id = key, si_key = fst kv, si_value = snd kv,
                       si_category = name_stem (path_name plist_path),
                       si_source = path_str plist_path\<rparr>],
          key))"

text \<open>
  \<open>ingest_system_info_from_plist\<close>.  \<open>loaded\<close> is what \<open>plistlib.load\<close> makes of the file:
  the exception it raises, or the property list.
\<close>

definition ingest_system_info_from_plist ::
  "path \<Rightarrow> pyexc + plist \<Rightarrow> system_info_row table \<Rightarrow> (pyexc + nat) \<times> system_info_row table" where
  "ingest_system_info_from_plist plist_path loaded tbl =
     (case loaded of
        Inl e \<Rightarrow> (Inl e, tbl)
      | Inr plist_data \<Rightarrow>
          (let flattened = flatten [] plist_data
           in (Inr (length flattened), foldl (insert_system_info plist_path) tbl flattened)))"

section \<open>The vector store (services/vector_store.py, services/embedding.py)\<close>

text \<open>
  An embedding is an opaque list of numbers.  \<open>upsert\<close> stores every id with its vector,
  metadata and document, replacing an entry of the same id.
\<close>

type_synonym vector = "rat list"

record vector_entry =
  ve_embedding :: vector
  ve_metadata :: "(string \<times> string) list"
  ve_document :: string

record vector_store =
  vs_enabled :: bool
  vs_entries :: "(string \<times> vector_entry) list"

definition vs_upsert ::
  "string list \<Rightarrow> vector list \<Rightarrow> (string \<times> string) list list \<Rightarrow> string list \<Rightarrow>
   vector_store \<Rightarrow> vector_store" where
  "vs_upsert ids embeddings metadatas documents vs =
     (if \<not> vs_enabled vs then vs
      else vs\<lparr>vs_entries :=
                foldl (\<lambda>entries (i, e, m, d).
                         AList.update i \<lparr>ve_embedding = e, ve_metadata = m, ve_document = d\<rparr> entries)
                  (vs_entries vs) (zip ids (zip embeddings (zip metadatas documents)))\<rparr>)"

text \<open>
  \<open>_index_embeddings\<close>.  The collaborators are parameters: \<open>encode_texts\<close> returns the
  vectors or raises an exception, given by its class and its text; \<open>upsert_error\<close> is the
  exception that the store's \<open>upsert\<close> raises in this run, if any.
\<close>

definition index_embeddings ::
  "(string list \<Rightarrow> pyexc \<times> string + vector list) \<Rightarrow> (pyexc \<times> string) option \<Rightarrow>
   embedding_record list \<Rightarrow> vector_store \<Rightarrow> (pyexc \<times> string) option \<times> vector_store" where
  "index_embeddings encode_texts upsert_error records vs =
     (if records = [] \<or> \<not> vs_enabled vs then (None, vs)
      else
        (let texts = map er_text records
         in case encode_texts texts of
              Inl e \<Rightarrow> (Some e, vs)
            | Inr embeddings \<Rightarrow>
                if embeddings = [] then (None, vs)
                else
                  (case upsert_error of
                     Some e \<Rightarrow> (Some e, vs)
                   | None \<Rightarrow>
                       (None, vs_upsert (map er_vector_id records) embeddings
                                (map er_metadata records) texts vs))))"

section \<open>Archive intake (utils/file_ops.py, services/ufdr_ingest.py)\<close>

text \<open>
  A file of an archive: the directory it lies in below the archive root, its name, and what
  each parser of the pipeline makes of its content.
\<close>

record file_content =
  fc_sqlite :: src_db
  fc_xml :: "pyexc + xml_contact list"
  fc_plist :: "pyexc + plist"

record archive_member =
  am_dir :: path
  am_name :: string
  am_content :: file_content

text \<open>
  An upload: its file name, and the files of the archive in the order \<open>rglob\<close> yields them
  after extraction, or nothing when the upload is not a ZIP archive.
\<close>

record upload_file =
  upload_filename :: "string option"
  upload_archive :: "archive_member list option"

definition extracted_file :: "path \<Rightarrow> archive_member \<Rightarrow> path \<times> file_content" where
  "extracted_file extraction_dir m = (extraction_dir @ am_dir m @ [am_name m], am_content m)"

text \<open>\<open>k in s\<close> for strings.\<close>

fun contains :: "string \<Rightarrow> string \<Rightarrow> bool" where
  "contains [] k = (k = [])"
| "contains (c # s) k = (take (length k) (c # s) = k \<or> contains s k)"

definition IMAGE_EXTENSIONS :: "string list" where
  "IMAGE_EXTENSIONS = [''.jpg'', ''.jpeg'', ''.png'', ''.gif'', ''.bmp'', ''.heic'', ''.heif'', ''.tiff'']"

record ufdr_sources =
  message_dbs :: "(path \<times> file_content) list"
  contact_dbs :: "(path \<times> file_content) list"
  contact_xml_files :: "(path \<times> file_content) list"
  system_plists :: "(path \<times> file_content) list"
  image_files :: "path list"

text \<open>The kind that the body of the loop of \<open>discover_sources\<close> gives a file name.\<close>

datatype source_kind = MessageDb | ContactDb | ContactXml | SystemPlist | ImageFile | Unclassified

definition classify :: "string \<Rightarrow> source_kind" where
  "classify name =
     (let suffix = lower (name_suffix name);
          name_lower = lower name
      in if suffix \<in> {''.sqlite'', ''.db''} then
           (if list_ex (\<lambda>keyword. contains name_lower keyword)
                 [''sms'', ''message'', ''chat'', ''imessage'', ''mms'', ''whatsapp'']
            then MessageDb
            else if contains name_lower ''contact'' \<or> contains name_lower ''addressbook''
            then ContactDb
            else Unclassified)
         else if suffix = ''.xml'' \<and> contains name_lower ''contact'' then ContactXml
         else if suffix = ''.plist'' then SystemPlist
         else if suffix \<in> set IMAGE_EXTENSIONS then ImageFile
         else Unclassified)"

definition discover_sources :: "(path \<times> file_content) list \<Rightarrow> ufdr_sources" where
  "discover_sources files =
     \<lparr>message_dbs = filter (\<lambda>file. classify (path_name (fst file)) = MessageDb) files,
      contact_dbs = filter (\<lambda>file. classify (path_name (fst file)) = ContactDb) files,
      contact_xml_files = filter (\<lambda>file. classify (path_name (fst file)) = ContactXml) files,
      system_plists = filter (\<lambda>file. classify (path_name (fst file)) = SystemPlist) files,
      image_files = map fst (filter (\<lambda>file. classify (path_name (fst file)) = ImageFile) files)\<rparr>"

text \<open>
  \<open>persist_upload\<close>.  The environment supplies the identifier that \<open>uuid4\<close> draws and what
  writing the archive to disk does.
\<close>

datatype disk_outcome = DiskOk | DiskFull | DiskError string

datatype upload_error = UploadStorageFullError string | UploadPersistenceError string

definition persist_upload ::
  "path \<Rightarrow> path \<Rightarrow> string \<Rightarrow> disk_outcome \<Rightarrow> string option \<Rightarrow> upload_error + path \<times> path" where
  "persist_upload uploads_dir extraction_root unique_id disk filename =
     (let archive_filename = (if truthy filename then unique_id @ ''_'' @ or_str filename []
                              else unique_id @ ''.ufdr'');
          archive_path = uploads_dir @ [archive_filename];
          extraction_dir = extraction_root @ [unique_id]
      in case disk of
           DiskFull \<Rightarrow> Inl (UploadStorageFullError ''Insufficient disk space while saving UFDR upload'')
         | DiskError msg \<Rightarrow> Inl (UploadPersistenceError (''Failed writing UFDR upload to disk: '' @ msg))
         | DiskOk \<Rightarrow> Inr (archive_path, extraction_dir))"

section \<open>The ingestion orchestrator (services/ufdr_ingest.py)\<close>

text \<open>
  The stores that outlive a run: the four tables of the ledger, the graph client with the
  process-wide alias map, and the vector store.
\<close>

record world =
  w_messages :: "message_row table"
  w_contacts :: "contact_row table"
  w_system_info :: "system_info_row table"
  w_images :: "image_row table"
  w_graph :: graph_ctx
  w_vectors :: vector_store

text \<open>
  What a run takes from its environment: the settings, the identifier \<open>uuid4\<close> draws, the
  disk, \<open>datetime.fromisoformat\<close>, the text \<open>str(exc)\<close> of an exception, the file system and
  clock of the image passes, the vision client, the embedder and the vector store's \<open>upsert\<close>.
\<close>

record run_env =
  env_uploads_dir :: path
  env_extracted_dir :: path
  env_uuid4 :: string
  env_disk :: disk_outcome
  env_fromisoformat :: "string \<Rightarrow> pyexc + pydatetime"
  env_str_exc :: "pyexc \<Rightarrow> string"
  env_images :: image_env
  env_vision :: "string + caption_env"
  env_encode_texts :: "string list \<Rightarrow> pyexc \<times> string + vector list"
  env_upsert_error :: "(pyexc \<times> string) option"

record ingestion_summary =
  archive_name :: string
  extraction_id :: string
  summary_notes :: "string list"
  messages_ingested :: nat
  contacts_ingested :: nat
  system_records_ingested :: nat
  images_logged :: nat
  images_captioned :: nat

text \<open>What the caller of the orchestrator sees when no summary is returned: the
  \<open>HTTPException\<close> the orchestrator raises, or an exception that passes through it.\<close>

datatype failure = HTTPException int string | Raised pyexc string

text \<open>
  A loop over the files of one kind whose body is wrapped in \<open>try\<close> and \<open>except Exception\<close>:
  every file changes the state and appends one note.
\<close>

fun for_each_source :: "('f \<Rightarrow> 's \<Rightarrow> 's \<times> string) \<Rightarrow> 'f list \<Rightarrow> 's \<Rightarrow> 's \<times> string list" where
  "for_each_source body [] st = (st, [])"
| "for_each_source body (file # files) st =
     (case body file st of
        (st1, note) \<Rightarrow>
          (case for_each_source body files st1 of
             (st2, later) \<Rightarrow> (st2, note # later)))"

text \<open>The text of a count, and the note of a file that was parsed: \<open>relative_to\<close> is
  evaluated inside the \<open>try\<close>, after the counters were updated.\<close>

definition str_nat :: "nat \<Rightarrow> string" where
  "str_nat n = str_digits (int n)"

definition parsed_note ::
  "run_env \<Rightarrow> path \<Rightarrow> path \<Rightarrow> string \<Rightarrow> string \<Rightarrow> string" where
  "parsed_note env extraction_dir file_path parsed failed =
     (case relative_to file_path extraction_dir of
        Inr rel \<Rightarrow> parsed @ rel_str rel
      | Inl e \<Rightarrow> failed @ path_name file_path @ '': '' @ env_str_exc env e)"

text \<open>The bodies of the four loops.  The state of the first is the count of messages, the
  embedding records and the stores; of the others, a count and the stores.\<close>

definition message_db_body ::
  "run_env \<Rightarrow> path \<Rightarrow> path \<times> file_content \<Rightarrow> (nat \<times> embedding_record list) \<times> world \<Rightarrow>
   ((nat \<times> embedding_record list) \<times> world) \<times> string" where
  "message_db_body env extraction_dir file st =
     (case st of ((messages_so_far, message_embedding_records), w) \<Rightarrow>
        (case ingest_messages_from_sqlite (env_fromisoformat env) (fst file) (fc_sqlite (snd file))
                (w_messages w, w_graph w) of
           (Inl e, tbl, ctx) \<Rightarrow>
             (((messages_so_far, message_embedding_records),
               w\<lparr>w_messages := tbl, w_graph := ctx\<rparr>),
              ''Failed parsing messages from '' @ path_name (fst file) @ '': '' @ env_str_exc env e)
         | (Inr (processed, embeddings), tbl, ctx) \<Rightarrow>
             (((messages_so_far + processed, message_embedding_records @ embeddings),
               w\<lparr>w_messages := tbl, w_graph := ctx\<rparr>),
              parsed_note env extraction_dir (fst file)
                (''Parsed '' @ str_nat processed @ '' messages from '')
                ''Failed parsing messages from '')))"

definition contact_db_body ::
  "run_env \<Rightarrow> path \<Rightarrow> path \<times> file_content \<Rightarrow> nat \<times> world \<Rightarrow> (nat \<times> world) \<times> string" where
  "contact_db_body env extraction_dir file st =
     (case st of (contacts_so_far, w) \<Rightarrow>
        (case ingest_contacts_from_sqlite (fst file) (fc_sqlite (snd file))
                (w_contacts w, w_graph w) of
           (Inl e, tbl, ctx) \<Rightarrow>
             ((contacts_so_far, w\<lparr>w_contacts := tbl, w_graph := ctx\<rparr>),
              ''Failed parsing contacts from '' @ path_name (fst file) @ '': '' @ env_str_exc env e)
         | (Inr processed, tbl, ctx) \<Rightarrow>
             ((contacts_so_far + processed, w\<lparr>w_contacts := tbl, w_graph := ctx\<rparr>),
              parsed_note env extraction_dir (fst file)
                (''Parsed '' @ str_nat processed @ '' contacts from '')
                ''Failed parsing contacts from '')))"

definition contact_xml_body ::
  "run_env \<Rightarrow> path \<Rightarrow> path \<times> file_content \<Rightarrow> nat \<times> world \<Rightarrow> (nat \<times> world) \<times> string" where
  "contact_xml_body env extraction_dir file st =
     (case st of (contacts_so_far, w) \<Rightarrow>
        (case ingest_contacts_from_xml (fst file) (fc_xml (snd file)) (w_contacts w, w_graph w) of
           (Inl e, tbl, ctx) \<Rightarrow>
             ((contacts_so_far, w\<lparr>w_contacts := tbl, w_graph := ctx\<rparr>),
              ''Failed parsing contacts XML '' @ path_name (fst file) @ '': '' @ env_str_exc env e)
         | (Inr processed, tbl, ctx) \<Rightarrow>
             ((contacts_so_far + processed, w\<lparr>w_contacts := tbl, w_graph := ctx\<rparr>),
              parsed_note env extraction_dir (fst file)
                (''Parsed '' @ str_nat processed @ '' contacts from '')
                ''Failed parsing contacts XML '')))"

definition system_plist_body ::
  "run_env \<Rightarrow> path \<Rightarrow> path \<times> file_content \<Rightarrow> nat \<times> world \<Rightarrow> (nat \<times> world) \<times> string" where
  "system_plist_body env extraction_dir file st =
     (case st of (system_records_so_far, w) \<Rightarrow>
        (case ingest_system_info_from_plist (fst file) (fc_plist (snd file)) (w_system_info w) of
           (Inl e, tbl) \<Rightarrow>
             ((system_records_so_far, w\<lparr>w_system_info := tbl\<rparr>),
              ''Failed parsing system plist '' @ path_name (fst file) @ '': '' @ env_str_exc env e)
         | (Inr processed, tbl) \<Rightarrow>
             ((system_records_so_far + processed, w\<lparr>w_system_info := tbl\<rparr>),
              parsed_note env extraction_dir (fst file)
                (''Parsed '' @ str_nat processed @ '' system records from '')
                ''Failed parsing system plist '')))"

text \<open>The image passes: the inventory, which is outside any \<open>try\<close>, then the captioner.
  The result is the count of logged images, the count of captions, the embedding records,
  the \<open>images\<close> table and the notes.\<close>

definition ingest_images ::
  "run_env \<Rightarrow> path \<Rightarrow> path list \<Rightarrow> image_row table \<Rightarrow>
   (nat \<times> nat \<times> embedding_record list) \<times> image_row table \<times> string list" where
  "ingest_images env extraction_dir image_paths tbl =
     (case log_image_inventory (env_images env) image_paths extraction_dir tbl of
        ((image_count, new_images), tbl1) \<Rightarrow>
          (let logged = (if image_count \<noteq> 0
                         then [''Logged '' @ str_nat image_count @
                               '' image references for Phase 3 processing'']
                         else [])
           in if new_images = [] then ((image_count, 0, []), tbl1, logged)
              else
                (case describe_and_index_images (env_vision env) new_images (fst tbl1) of
                   (Inl msg, rows2) \<Rightarrow>
                     ((image_count, 0, []), (rows2, snd tbl1),
                      logged @ [''Image captioning failed: '' @ msg])
                 | (Inr (captioned, image_embedding_records), rows2) \<Rightarrow>
                     ((image_count, captioned, image_embedding_records), (rows2, snd tbl1),
                      logged @
                      [if captioned \<noteq> 0
                       then ''Generated captions for '' @ str_nat captioned @ '' images''
                       else ''No image captions generated across '' @ str_nat (length new_images) @
                            '' attempts; review logs for vision errors'']))))"

text \<open>The embedding step: only a \<open>RuntimeError\<close> of \<open>_index_embeddings\<close> is caught.\<close>

definition store_embeddings ::
  "run_env \<Rightarrow> embedding_record list \<Rightarrow> embedding_record list \<Rightarrow> vector_store \<Rightarrow>
   pyexc \<times> string + vector_store \<times> string" where
  "store_embeddings env message_embedding_records image_embedding_records vs =
     (if vs_enabled vs then
        (let combined_records = message_embedding_records @ image_embedding_records
         in if combined_records \<noteq> [] then
              (case index_embeddings (env_encode_texts env) (env_upsert_error env)
                      combined_records vs of
                 (Some (e, msg), vs1) \<Rightarrow>
                   if e = RuntimeError then Inr (vs1, ''Vector store indexing failed: '' @ msg)
                   else Inl (e, msg)
               | (None, vs1) \<Rightarrow>
                   Inr (vs1,
                        ''Stored embeddings for '' @
                        (if message_embedding_records \<noteq> [] \<and> image_embedding_records \<noteq> []
                         then str_nat (length message_embedding_records) @ '' messages and '' @
                              str_nat (length image_embedding_records) @ '' images''
                         else if message_embedding_records \<noteq> []
                         then str_nat (length message_embedding_records) @ '' messages''
                         else str_nat (length image_embedding_records) @ '' images'')))
            else Inr (vs, ''Vector store enabled but no content suitable for embeddings was found''))
      else Inr (vs, ''Vector store disabled; set VECTOR_STORE_ENABLED=1 to enable embeddings''))"

definition graph_note :: "graph_ctx \<Rightarrow> string" where
  "graph_note ctx =
     (if gc_enabled (ctx_client ctx) then
        (let graph_stats = (case ctx_stats ctx of None \<Rightarrow> new_graph_stats | Some st \<Rightarrow> st)
         in if contacts_registered graph_stats \<noteq> 0 \<or> relationships_registered graph_stats \<noteq> 0
            then ''Neo4j graph updated ('' @ str_nat (contacts_registered graph_stats) @
                 '' contacts, '' @ str_nat (relationships_registered graph_stats) @
                 '' message links)''
            else ''Neo4j graph integration enabled; no new contacts or message links were added'')
      else ''Neo4j integration skipped (set NEO4J_ENABLED=1 and install Phase 2 requirements to enable)'')"

text \<open>
  The part of \<open>ingest_ufdr_archive\<close> that follows the extraction: the alias map is cleared,
  fresh \<open>GraphStats\<close> are made, and the sources are processed kind by kind.
\<close>

definition process_sources ::
  "run_env \<Rightarrow> string \<Rightarrow> path \<Rightarrow> ufdr_sources \<Rightarrow> world \<Rightarrow> (failure + ingestion_summary) \<times> world" where
  "process_sources env filename extraction_dir sources w0 =
     (let w = w0\<lparr>w_graph := (w_graph w0)\<lparr>ctx_alias := [], ctx_stats := Some new_graph_stats\<rparr>\<rparr>;
          notes0 = (if message_dbs sources = [] \<and> contact_dbs sources = []
                    then [''No obvious message or contact databases were discovered. Review the extraction manually.'']
                    else [])
      in case for_each_source (message_db_body env extraction_dir) (message_dbs sources) ((0, []), w) of
           (((messages_total, message_embedding_records), w1), notes1) \<Rightarrow>
      (case for_each_source (contact_db_body env extraction_dir) (contact_dbs sources) (0, w1) of
           ((contacts_from_dbs, w2), notes2) \<Rightarrow>
      (case for_each_source (contact_xml_body env extraction_dir) (contact_xml_files sources)
              (contacts_from_dbs, w2) of
           ((contacts_total, w3), notes3) \<Rightarrow>
      (case for_each_source (system_plist_body env extraction_dir) (system_plists sources) (0, w3) of
           ((system_total, w4), notes4) \<Rightarrow>
      (case ingest_images env extraction_dir (image_files sources) (w_images w4) of
           ((image_count, captioned, image_embedding_records), images1, notes5) \<Rightarrow>
      (let w5 = w4\<lparr>w_images := images1\<rparr>
       in case store_embeddings env message_embedding_records image_embedding_records
                 (w_vectors w5) of
            Inl (e, msg) \<Rightarrow> (Inl (Raised e msg), w5)
          | Inr (vs, note6) \<Rightarrow>
              (Inr \<lparr>archive_name = filename, extraction_id = path_name extraction_dir,
                    summary_notes = notes0 @ notes1 @ notes2 @ notes3 @ notes4 @ notes5 @
                              [note6, graph_note (w_graph w5)],
                    messages_ingested = messages_total, contacts_ingested = contacts_total,
                    system_records_ingested = system_total, images_logged = image_count,
                    images_captioned = captioned\<rparr>,
               w5\<lparr>w_vectors := vs\<rparr>)))))))"

text \<open>\<open>ingest_ufdr_archive\<close>.\<close>

definition ingest_ufdr_archive ::
  "run_env \<Rightarrow> upload_file \<Rightarrow> world \<Rightarrow> (failure + ingestion_summary) \<times> world" where
  "ingest_ufdr_archive env upload w =
     (if \<not> truthy (upload_filename upload)
      then (Inl (HTTPException 400 ''Uploaded file is missing a filename''), w)
      else
        (case persist_upload (env_uploads_dir env) (env_extracted_dir env) (env_uuid4 env)
                (env_disk env) (upload_filename upload) of
           Inl (UploadStorageFullError msg) \<Rightarrow>
             (Inl (HTTPException 507
                ''Uploads storage is full. Clear old ingests in storage/uploads or free disk space before retrying.''),
              w)
         | Inl (UploadPersistenceError msg) \<Rightarrow> (Inl (HTTPException 500 msg), w)
         | Inr (archive_path, extraction_dir) \<Rightarrow>
             (case upload_archive upload of
                None \<Rightarrow> (Inl (HTTPException 400 ''UFDR archive is corrupt or not a valid ZIP''), w)
              | Some members \<Rightarrow>
                  process_sources env (or_str (upload_filename upload) []) extraction_dir
                    (discover_sources (map (extracted_file extraction_dir) members)) w)))"

text \<open>
  Vocabulary for the statements about images: a row counts as captioned when its status is
  \<open>done\<close> in any letter case; in a table written by the pipeline a vector id is the one
  derived from the row's own key.
\<close>

definition is_done :: "image_row \<Rightarrow> bool" where
  "is_done r = (lower (or_str (img_caption_status r) []) = ''done'')"

definition vector_ids_own :: "image_row list \<Rightarrow> bool" where
  "vector_ids_own tbl =
     list_all (\<lambda>r. img_vector_id r = None \<or> img_vector_id r = Some (image_vector_id (img_id r))) tbl"

definition vision_ok :: "caption_env \<Rightarrow> image_inventory_record \<Rightarrow> bool" where
  "vision_ok env record = (\<not> isl (describe_image env (iir_file_path record)))"

text \<open>
  Vocabulary for the statements about the inventory: the relative path logged for an image,
  the metadata read back from a row, and what rediscovery of its file makes of a stored row.
\<close>

definition image_relative_path :: "path \<Rightarrow> path \<Rightarrow> string" where
  "image_relative_path image_path extraction_dir =
     (case relative_to image_path extraction_dir of
        Inr rel \<Rightarrow> rel_str rel
      | Inl e \<Rightarrow> path_str image_path)"

definition existing_metadata :: "image_row \<Rightarrow> metadata" where
  "existing_metadata r = (case img_metadata r of MetaDict d \<Rightarrow> d | _ \<Rightarrow> [])"

definition new_metadata :: "image_env \<Rightarrow> path \<Rightarrow> path \<Rightarrow> metadata" where
  "new_metadata env extraction_dir image_path =
     build_image_metadata env image_path (image_relative_path image_path extraction_dir) extraction_dir"

definition rediscovered_row :: "image_env \<Rightarrow> path \<Rightarrow> path \<Rightarrow> image_row \<Rightarrow> image_row" where
  "rediscovered_row env extraction_dir image_path e =
     e\<lparr>img_relative_path := Some (image_relative_path image_path extraction_dir),
       img_source := Some ''ufdr'',
       img_metadata := MetaDict (dict_merge (existing_metadata e)
                                   (new_metadata env extraction_dir image_path)),
       img_caption_status := (if is_done e then img_caption_status e else Some ''pending'')\<rparr>"

text \<open>
  How a stored row \<open>e\<close> appears after the inventory of the paths \<open>P\<close>: rediscovered when
  its file path is among them, untouched otherwise.  \<open>inventory_inv\<close> describes the state of
  the inventory loop after the paths \<open>P\<close>, relative to the table \<open>tbl0\<close> it started from:
  the stored rows, then the rows inserted by the loop, all pending; the records collected are
  those of the inserted rows and of the rediscovered rows that were not captioned.
\<close>

definition rediscovery_of :: "image_env \<Rightarrow> path \<Rightarrow> path set \<Rightarrow> image_row \<Rightarrow> image_row \<Rightarrow> bool" where
  "rediscovery_of env extraction_dir P e r =
     (if img_file_path e \<in> path_str ` P
      then \<exists>p\<in>P. path_str p = img_file_path e \<and> r = rediscovered_row env extraction_dir p e
      else r = e)"

definition inventory_inv ::
  "image_env \<Rightarrow> path \<Rightarrow> image_row list \<Rightarrow> path set \<Rightarrow>
   image_row table \<times> image_inventory_record list \<times> string set \<times> nat \<Rightarrow> bool" where
  "inventory_inv env extraction_dir tbl0 P st =
     (case st of ((t, seq), records, seen_paths, processed) \<Rightarrow>
        seen_paths = path_str ` P \<and> processed = card (path_str ` P) \<and>
        distinct (map img_id t) \<and> distinct (map img_file_path t) \<and>
        (\<exists>updated inserted.
           t = updated @ inserted \<and>
           list_all2 (rediscovery_of env extraction_dir P) tbl0 updated \<and>
           list_all (\<lambda>r. img_caption_status r = Some ''pending'' \<and>
                         img_file_path r \<in> path_str ` P) inserted \<and>
           set (map iir_id records) =
             img_id ` set inserted \<union>
             img_id ` {e \<in> set tbl0. img_file_path e \<in> path_str ` P \<and> \<not> is_done e}))"

text \<open>The embedding records of the records whose vision call returns, in order.\<close>

definition embeddings_of :: "caption_env \<Rightarrow> image_inventory_record list \<Rightarrow> embedding_record list" where
  "embeddings_of env records =
     List.map_filter
       (\<lambda>record. case describe_image env (iir_file_path record) of
                    Inl msg \<Rightarrow> None
                  | Inr description \<Rightarrow> Some (image_embedding record description))
       records"

section \<open>Sample data for closed instances\<close>

definition sample_client :: graph_client where
  "sample_client = \<lparr>gc_enabled = True, gc_failures = [], gc_persons = [], gc_relationships = [],
                     gc_person_calls = [], gc_message_calls = []\<rparr>"

definition sample_ctx :: graph_ctx where
  "sample_ctx = \<lparr>ctx_client = sample_client, ctx_alias = [], ctx_stats = Some new_graph_stats\<rparr>"

definition sample_columns :: "string list" where
  "sample_columns = [''text'', ''date'', ''sender'', ''receiver'']"

definition sample_row_bodied :: "sqlval list" where
  "sample_row_bodied =
     [SqlInt 1, SqlText ''hi'', SqlInt 700000000, SqlText ''+1 555 0001'', SqlText ''Jane@Example.com'']"

definition sample_row_bodiless :: "sqlval list" where
  "sample_row_bodiless =
     [SqlInt 2, SqlNull, SqlInt 700000060, SqlText ''+1 555 0001'', SqlText ''Jane@Example.com'']"

definition sample_db_a :: path where
  "sample_db_a = [''extracted'', ''u1'', ''a'', ''sms.db'']"

definition sample_db_b :: path where
  "sample_db_b = [''extracted'', ''u1'', ''b'', ''sms.db'']"


text \<open>
  A row without a body whose rowid is that of the bodied sample row, and the \<open>messages\<close> table
  after that row was ingested from \<open>a/sms.db\<close> and the bodied row from \<open>b/sms.db\<close>, into an
  empty ledger.
\<close>

definition sample_row_attachment :: "sqlval list" where
  "sample_row_attachment =
     [SqlInt 1, SqlNull, SqlInt 700000000, SqlText ''+1 555 0001'', SqlText ''Jane@Example.com'']"

definition sample_collision_ledger :: "message_row table" where
  "sample_collision_ledger =
     fst (snd (ingest_message_rows fromisoformat_rejecting sample_db_b ''message'' sample_columns
                 [sample_row_bodied]
                 (fst (snd (ingest_message_rows fromisoformat_rejecting sample_db_a ''message''
                              sample_columns [sample_row_attachment] (([], 0), 0, [], sample_ctx))),
                  0, [], sample_ctx)))"

text \<open>Two images of one extraction, their inventory in an empty ledger, and a captioner whose
  vision call fails for the first image.\<close>

definition sample_extraction_dir :: path where
  "sample_extraction_dir = [''extracted'', ''u1'']"

definition sample_image_paths :: "path list" where
  "sample_image_paths = [[''extracted'', ''u1'', ''a.jpg''], [''extracted'', ''u1'', ''DCIM'', ''b.jpg'']]"

definition sample_image_env :: image_env where
  "sample_image_env = \<lparr>file_stat = (\<lambda>p. None), guess_type = (\<lambda>s. Some ''image/jpeg'')\<rparr>"

definition sample_images :: "image_row list" where
  "sample_images =
     fst (snd (log_image_inventory sample_image_env sample_image_paths sample_extraction_dir ([], 0)))"

definition sample_records :: "image_inventory_record list" where
  "sample_records =
     snd (fst (log_image_inventory sample_image_env sample_image_paths sample_extraction_dir ([], 0)))"

definition sample_caption_env :: caption_env where
  "sample_caption_env =
     \<lparr>describe_image =
        (\<lambda>p. if p = ''/extracted/u1/a.jpg'' then Inl ''Gemini Vision request failed: None''
              else Inr \<lparr>caption = ''A cat on a sofa'', tags = [''cat'', ''sofa''],
                        detected_text = None\<rparr>),
      now = (\<lambda>i. ''2024-01-01T00:00:0'' @ str_digits (int i) @ ''+00:00'')\<rparr>"

text \<open>A contact table in which two rows carry the same phone number, and a run against a
  driver that fails the first write.\<close>

definition sample_failing_ctx :: graph_ctx where
  "sample_failing_ctx = sample_ctx\<lparr>ctx_client := sample_client\<lparr>gc_failures := [True]\<rparr>\<rparr>"

definition sample_contacts_db :: path where
  "sample_contacts_db = [''extracted'', ''u1'', ''contacts.db'']"

definition sample_contacts_table :: src_table where
  "sample_contacts_table =
     \<lparr>st_name = ''people'', st_columns = [''name'', ''phone'', ''email''],
      st_rows = [(1, [SqlText ''Jane Smith'', SqlText ''+1 555 0001'', SqlText ''Jane@Example.com'']),
                 (2, [SqlText ''J. Smith'', SqlText ''tel:+15550001'', SqlNull])]\<rparr>"

text \<open>The sample ledger after the captioner ran, and the paths of a second inventory: the two
  images again and a third one.\<close>

definition sample_captioned_images :: "image_row list" where
  "sample_captioned_images =
     snd (describe_and_index_images (Inr sample_caption_env) sample_records sample_images)"

definition sample_second_paths :: "path list" where
  "sample_second_paths = sample_image_paths @ [[''extracted'', ''u1'', ''c.png'']]"

section \<open>Properties of the field normalizer\<close>

text \<open>
  C5 (as amended).  \<open>canonicalize_actor\<close> maps the three examples as stated.  In general,
  with \<open>t\<close> the trimmed input and \<open>r\<close> what remains of \<open>t\<close> after a leading
  case-insensitive \<open>tel:\<close> is removed: an empty \<open>t\<close> gives no identity; if \<open>r\<close>
  contains \<open>@\<close> the result is \<open>r\<close> lowercased; otherwise, if \<open>r\<close> contains a digit,
  the result is the digits of \<open>r\<close>, prefixed with \<open>+\<close> exactly when \<open>r\<close>, trimmed again,
  begins with \<open>+\<close>; otherwise the result is \<open>r\<close> lowercased.
\<close>

theorem canonicalize_actor_cases:
  "canonicalize_actor (Some ''tel:+1 (555) 123-0001'') = Some ''+15551230001'' \<and>
   canonicalize_actor (Some ''Jane@Example.com'') = Some ''jane@example.com'' \<and>
   canonicalize_actor (Some []) = None \<and>
   canonicalize_actor None = None \<and>
   canonicalize_actor (Some v) =
     (let t = strip v;
          r = (if startswith (lower t) ''tel:'' then drop 4 t else t)
      in if t = [] then None
         else if CHR ''@'' \<in> set r then Some (lower r)
         else if filter isdigit r \<noteq> []
           then Some ((if startswith (strip r) ''+'' then ''+'' else []) @ filter isdigit r)
         else Some (lower r))"
proof -
  have e1: "canonicalize_actor (Some ''tel:+1 (555) 123-0001'') = Some ''+15551230001''"
    by code_simp
  have e2: "canonicalize_actor (Some ''Jane@Example.com'') = Some ''jane@example.com''"
    by code_simp
  have e3: "canonicalize_actor (Some []) = None"
    by (simp add: canonicalize_actor_def strip_def)
  have e4: "canonicalize_actor None = None"
    by (simp add: canonicalize_actor_def)
  have g: "canonicalize_actor (Some v) =
     (let t = strip v;
          r = (if startswith (lower t) ''tel:'' then drop 4 t else t)
      in if t = [] then None
         else if CHR ''@'' \<in> set r then Some (lower r)
         else if filter isdigit r \<noteq> []
           then Some ((if startswith (strip r) ''+'' then ''+'' else []) @ filter isdigit r)
         else Some (lower r))"
    by (simp add: canonicalize_actor_def Let_def)
  from e1 e2 e3 e4 g show ?thesis by blast
qed

theorem canonicalize_actor_cases_witness:
  "canonicalize_actor (Some '' TEL: +44 20-7946 '') = Some ''+44207946''"
proof -
  have "canonicalize_actor (Some '' TEL: +44 20-7946 '') =
     (let t = strip '' TEL: +44 20-7946 '';
          r = (if startswith (lower t) ''tel:'' then drop 4 t else t)
      in if t = [] then None
         else if CHR ''@'' \<in> set r then Some (lower r)
         else if filter isdigit r \<noteq> []
           then Some ((if startswith (strip r) ''+'' then ''+'' else []) @ filter isdigit r)
         else Some (lower r))"
    using canonicalize_actor_cases [of "'' TEL: +44 20-7946 ''"] by blast
  also have "\<dots> = Some ''+44207946''"
    by code_simp
  finally show ?thesis .
qed

text \<open>
  C5, the claim as stated: the \<open>+\<close> prefix is not decided by the trimmed original.  The
  trimmed original \<open>tel:+1\<close> begins with \<open>t\<close>, and the identity still carries the \<open>+\<close>.
\<close>

theorem canonicalize_actor_plus_counterexample:
  "canonicalize_actor (Some ''tel:+1'') = Some ''+1'' \<and> \<not> startswith (strip ''tel:+1'') ''+''"
  by code_simp

text \<open>
  C2, at the failing input.  The claim reads \<open>700000000\<close> as seconds since 2001-01-01, the
  instant 2023-03-08T20:26:40 UTC, as the comment in the code does.  The code renders it as
  Unix epoch second 700000000, in 1992: the offset is only ever subtracted, and only from
  values above it, so that the Unix epoch second 1700000000, an instant of 2023, is also moved
  to 1992.
\<close>

theorem safe_parse_timestamp_offset_never_added:
  "safe_parse_timestamp fromisoformat (Some ''700000000'') =
     Inr (Some ''1992-03-07T20:26:40+00:00'') \<and>
   map_sum id isoformat (datetime_fromtimestamp_utc (Finite (700000000 + 978307200))) =
     Inr ''2023-03-08T20:26:40+00:00'' \<and>
   safe_parse_timestamp fromisoformat (Some ''1700000000'') =
     Inr (Some ''1992-11-13T22:13:20+00:00'')"
  by code_simp

text \<open>
  C9, at the failing input: \<open>1e20\<close> parses as a number, is divided by 1000 and reduced by
  the offset; \<open>datetime.fromtimestamp\<close> then fails with \<open>OSError\<close>, which the handler for
  \<open>OverflowError\<close> and \<open>ValueError\<close> does not catch.
\<close>

theorem safe_parse_timestamp_raises_OSError:
  "safe_parse_timestamp fromisoformat (Some ''1e20'') = Inl OSError"
  by code_simp

section \<open>Properties of the message ledger\<close>

lemma backfill_map_unchanged:
  "filter (\<lambda>r. msg_external_id r = ext \<and> msg_vector_id r = None) rows = [] \<Longrightarrow>
   map (\<lambda>r. if msg_external_id r = ext \<and> msg_vector_id r = None
             then r\<lparr>msg_vector_id := Some v\<rparr> else r) rows = rows"
  by (induction rows) (auto split: if_splits)

lemma backfill_after_conflict:
  assumes "Some v \<in> set (map msg_vector_id (fst tbl))"
  shows "backfill_vector_id v ext tbl =
           (if filter (\<lambda>r. msg_external_id r = ext \<and> msg_vector_id r = None) (fst tbl) \<noteq> []
            then Inl IntegrityError else Inr tbl)"
  using assms backfill_map_unchanged [of ext "fst tbl" v]
  by (auto simp: backfill_vector_id_def Let_def)

lemma ingest_message_row_fresh:
  assumes "p = build_payload columns row"
      and "ext = message_external_id db_path table_name p"
      and "vid = message_vector_id (pick_first_value p TEXT_FIELDS) ext"
      and "safe_parse_timestamp fromisoformat (pick_first_value p TIMESTAMP_FIELDS) = Inr ts"
      and "vid = None \<or> vid \<notin> set (map msg_vector_id (fst tbl))"
  shows "\<exists>r embs' ctx'.
           ingest_message_row fromisoformat db_path table_name columns row (tbl, n, embs, ctx) =
             Inr ((fst tbl @ [r], msg_id r), Suc n, embs', ctx') \<and>
           msg_external_id r = ext \<and> msg_vector_id r = vid \<and>
           msg_id r = next_rowid (snd tbl) (map msg_id (fst tbl))"
  using assms
  by (auto simp: ingest_message_row_def Let_def insert_or_ignore_message_def)

lemma ingest_message_row_duplicate:
  assumes "p = build_payload columns row"
      and "ext = message_external_id db_path table_name p"
      and "message_vector_id (pick_first_value p TEXT_FIELDS) ext = Some v"
      and "safe_parse_timestamp fromisoformat (pick_first_value p TIMESTAMP_FIELDS) = Inr ts"
      and "Some v \<in> set (map msg_vector_id (fst tbl))"
  shows "if filter (\<lambda>r. msg_external_id r = ext \<and> msg_vector_id r = None) (fst tbl) \<noteq> []
         then ingest_message_row fromisoformat db_path table_name columns row (tbl, n, embs, ctx) =
                Inl IntegrityError
         else \<exists>rec ctx'.
                ingest_message_row fromisoformat db_path table_name columns row (tbl, n, embs, ctx) =
                  Inr ((fst tbl, next_rowid (snd tbl) (map msg_id (fst tbl))), n,
                       embs @ [rec], ctx') \<and>
                er_vector_id rec = v"
proof -
  let ?tbl1 = "(fst tbl, next_rowid (snd tbl) (map msg_id (fst tbl)))"
  have v1: "Some v \<in> set (map msg_vector_id (fst ?tbl1))"
    using assms(5) by simp
  have b: "backfill_vector_id v ext ?tbl1 =
             (if filter (\<lambda>r. msg_external_id r = ext \<and> msg_vector_id r = None) (fst tbl) \<noteq> []
              then Inl IntegrityError else Inr ?tbl1)"
    using backfill_after_conflict [OF v1, of ext] by simp
  show ?thesis
    using assms(1-5) b
    by (auto simp: ingest_message_row_def Let_def insert_or_ignore_message_def)
qed

lemma ingest_message_row_keeps_rows:
  assumes "ingest_message_row fromisoformat db_path table_name columns row (tbl, n, embs, ctx) =
             Inr (tbl', n', embs', ctx')"
  shows "take (length (fst tbl)) (fst tbl') = fst tbl"
proof -
  let ?p = "build_payload columns row"
  let ?ext = "message_external_id db_path table_name ?p"
  let ?vid = "message_vector_id (pick_first_value ?p TEXT_FIELDS) ?ext"
  obtain ts where ts: "safe_parse_timestamp fromisoformat (pick_first_value ?p TIMESTAMP_FIELDS) = Inr ts"
    using assms by (cases "safe_parse_timestamp fromisoformat (pick_first_value ?p TIMESTAMP_FIELDS)")
      (auto simp: ingest_message_row_def Let_def)
  show ?thesis
  proof (cases "?vid = None \<or> ?vid \<notin> set (map msg_vector_id (fst tbl))")
    case True
    from ingest_message_row_fresh [OF refl refl refl ts True, of n embs ctx] assms
    show ?thesis by auto
  next
    case False
    then have nn: "?vid \<noteq> None" and mem: "?vid \<in> set (map msg_vector_id (fst tbl))"
      by simp_all
    from nn obtain v where v: "?vid = Some v"
      by (cases ?vid) simp_all
    have i: "Some v \<in> set (map msg_vector_id (fst tbl))"
      using mem unfolding v .
    from ingest_message_row_duplicate [OF refl refl v ts i, of n embs ctx] assms
    show ?thesis by (auto split: if_splits)
  qed
qed

lemma filter_nonempty_iff_Bex:
  "(filter P xs \<noteq> []) = (\<exists>x\<in>set xs. P x)"
  by (simp add: filter_empty_conv)

text \<open>
  C3, at the failing input.  The claim has a duplicate row skipped and the null vector id of a
  stored row filled in.  In the code no stored row is ever changed: whenever the loop body
  returns, the rows the table held are still there as they were, so the backfill statement
  never fills a vector id in.  When the table holds a row of the same external id with a null
  vector id (here row 1 of \<open>a/sms.db\<close>, without a body) next to the row that holds the vector
  id (row 1 of \<open>b/sms.db\<close>), processing that row again is not a skip: the backfill statement
  is rejected by the unique index and \<open>IntegrityError\<close> leaves the loop.
\<close>

theorem backfill_never_fills:
  "(case ingest_message_row fromisoformat db_path table_name columns row (tbl, n, embs, ctx) of
      Inl e \<Rightarrow> True
    | Inr (tbl', rest) \<Rightarrow> take (length (fst tbl)) (fst tbl') = fst tbl) \<and>
   map (\<lambda>r. (msg_external_id r, msg_vector_id r)) (fst sample_collision_ledger) =
     [(''sms.db:message:1'', None), (''sms.db:message:1'', Some ''msg:sms.db:message:1'')] \<and>
   ingest_message_row fromisoformat sample_db_b ''message'' sample_columns sample_row_bodied
       (sample_collision_ledger, 0, [], sample_ctx) = Inl IntegrityError"
proof -
  have general:
    "case ingest_message_row fromisoformat db_path table_name columns row (tbl, n, embs, ctx) of
       Inl e \<Rightarrow> True
     | Inr (tbl', rest) \<Rightarrow> take (length (fst tbl)) (fst tbl') = fst tbl"
  proof (cases "ingest_message_row fromisoformat db_path table_name columns row (tbl, n, embs, ctx)")
    case (Inl e)
    then show ?thesis by simp
  next
    case (Inr st)
    obtain tbl' n' embs' ctx' where st: "st = (tbl', n', embs', ctx')"
      by (cases st)
    from ingest_message_row_keeps_rows [OF Inr [unfolded st]] show ?thesis
      unfolding Inr st by simp
  qed
  have ledger: "map (\<lambda>r. (msg_external_id r, msg_vector_id r)) (fst sample_collision_ledger) =
     [(''sms.db:message:1'', None), (''sms.db:message:1'', Some ''msg:sms.db:message:1'')]"
    by code_simp
  have closed: "ingest_message_row fromisoformat sample_db_b ''message'' sample_columns
       sample_row_bodied (sample_collision_ledger, 0, [], sample_ctx) = Inl IntegrityError"
    by code_simp
  from general ledger closed show ?thesis by blast
qed








section \<open>Properties of the image captioner\<close>

lemma digit_val_char_of: "0 \<le> d \<Longrightarrow> d < 10 \<Longrightarrow> digit_val (char_of (48 + d)) = d"
  unfolding digit_val_def
  by (simp add: take_bit_eq_mod)

lemma int_of_digits_snoc: "int_of_digits (xs @ [c]) = 10 * int_of_digits xs + digit_val c"
  by (simp add: int_of_digits_def)

lemma int_of_digits_str_digits: "0 \<le> n \<Longrightarrow> int_of_digits (str_digits n) = n"
proof (induction n rule: str_digits.induct)
  case (1 n)
  show ?case
  proof (cases "n < 10")
    case True
    have "str_digits n = [char_of (48 + n)]"
      using True by (subst str_digits.simps) simp
    then show ?thesis
      using True "1.prems" digit_val_char_of [of n] by (simp add: int_of_digits_def)
  next
    case False
    have s: "str_digits n = str_digits (n div 10) @ [char_of (48 + n mod 10)]"
      using False by (subst str_digits.simps) simp
    have ih: "int_of_digits (str_digits (n div 10)) = n div 10"
      using "1.IH" False "1.prems" by simp
    have d: "digit_val (char_of (48 + n mod 10)) = n mod 10"
      by (rule digit_val_char_of) simp_all
    show ?thesis
      unfolding s int_of_digits_snoc ih d by simp
  qed
qed

lemma image_vector_id_inj: "image_vector_id a = image_vector_id b \<Longrightarrow> a = b"
proof -
  assume "image_vector_id a = image_vector_id b"
  then have "str_digits (int a) = str_digits (int b)"
    by (simp add: image_vector_id_def)
  then have "int_of_digits (str_digits (int a)) = int_of_digits (str_digits (int b))"
    by simp
  then show "a = b"
    by (simp add: int_of_digits_str_digits)
qed


lemma update_images_id [simp]:
  "(\<And>r. img_id (f r) = img_id r) \<Longrightarrow> map img_id (update_images rid f tbl) = map img_id tbl"
  by (induction tbl) (auto simp: update_images_def)

lemma update_images_other:
  "(\<And>r. img_id (f r) = img_id r) \<Longrightarrow> rid \<noteq> k \<Longrightarrow>
   filter (\<lambda>row. img_id row = k) (update_images rid f tbl) = filter (\<lambda>row. img_id row = k) tbl"
  by (induction tbl) (auto simp: update_images_def)

lemma update_images_same:
  "(\<And>r. img_id (f r) = img_id r) \<Longrightarrow>
   filter (\<lambda>row. img_id row = rid) (update_images rid f tbl) =
     map f (filter (\<lambda>row. img_id row = rid) tbl)"
  by (induction tbl) (auto simp: update_images_def)

lemma caption_image_failed:
  "describe_image env (iir_file_path r) = Inl msg \<Longrightarrow>
   caption_image env i r (tbl, s, e) = (mark_failed (iir_id r) msg (now env i) tbl, s, e)"
  by (simp add: caption_image_def)

lemma no_conflict_own:
  assumes "vector_ids_own tbl"
  shows "\<not> list_ex (\<lambda>r. img_id r \<noteq> rid \<and> img_vector_id r = Some (image_vector_id rid)) tbl"
  using assms image_vector_id_inj
  by (auto simp: vector_ids_own_def list_ex_iff list_all_iff)

lemma caption_image_ok:
  assumes "describe_image env (iir_file_path r) = Inr d" and "vector_ids_own tbl"
  shows "\<exists>f. (\<forall>row. img_id (f row) = img_id row \<and> img_caption_status (f row) = Some ''done'' \<and>
                  img_vector_id (f row) = Some (image_vector_id (iir_id r))) \<and>
             caption_image env i r (tbl, s, e) =
               (update_images (iir_id r) f tbl, Suc s, e @ [image_embedding r d])"
proof -
  have nc: "\<not> list_ex (\<lambda>row. img_id row \<noteq> iir_id r \<and>
                img_vector_id row = Some (image_vector_id (iir_id r))) tbl"
    using assms(2) by (rule no_conflict_own)
  show ?thesis
    unfolding caption_image_def Let_def using assms(1) nc
    by (intro exI [where x = "\<lambda>row. row\<lparr>img_description := Some (caption d),
                 img_tags := (if tags d \<noteq> [] then Some (join '', '' (tags d)) else None),
                 img_detected_text := detected_text d,
                 img_vector_id := Some (image_vector_id (iir_id r)),
                 img_caption_status := Some ''done'',
                 img_caption_error := None,
                 img_last_captioned_at := Some (now env i),
                 img_metadata := MetaDict
                   (if truthy (detected_text d)
                    then AList.update ''detected_text'' (JStr (or_str (detected_text d) []))
                           (AList.update ''caption'' (JStr (caption d))
                              (AList.update ''tags'' (JList (tags d)) (iir_metadata r)))
                    else AList.update ''caption'' (JStr (caption d))
                           (AList.update ''tags'' (JList (tags d)) (iir_metadata r)))\<rparr>"])
       simp
qed


lemma vector_ids_own_update:
  assumes "vector_ids_own tbl"
      and "\<And>row. img_id (f row) = img_id row"
      and "\<And>row. img_vector_id (f row) = img_vector_id row \<or>
                 img_vector_id (f row) = Some (image_vector_id rid)"
  shows "vector_ids_own (update_images rid f tbl)"
  using assms(1)
proof (induction tbl)
  case Nil
  then show ?case by (simp add: vector_ids_own_def update_images_def)
next
  case (Cons a tbl)
  then show ?case
    using assms(2) [of a] assms(3) [of a]
    by (auto simp: vector_ids_own_def update_images_def)
qed

lemma vector_ids_own_mark_failed:
  "vector_ids_own tbl \<Longrightarrow> vector_ids_own (mark_failed rid msg ts tbl)"
  unfolding mark_failed_def by (rule vector_ids_own_update) simp_all

lemma embeddings_of_Cons_failed:
  "describe_image env (iir_file_path r) = Inl msg \<Longrightarrow> embeddings_of env (r # rs) = embeddings_of env rs"
  by (simp add: embeddings_of_def)

lemma embeddings_of_Cons_ok:
  "describe_image env (iir_file_path r) = Inr d \<Longrightarrow>
   embeddings_of env (r # rs) = image_embedding r d # embeddings_of env rs"
  by (simp add: embeddings_of_def)

lemma caption_image_untouched:
  "iir_id r \<noteq> rid \<Longrightarrow>
   filter (\<lambda>row. img_id row = rid) (fst (caption_image env i r st)) =
     filter (\<lambda>row. img_id row = rid) (fst st)"
  by (cases st)
     (auto simp: caption_image_def Let_def mark_failed_def update_images_other split: sum.splits)

lemma caption_images_untouched:
  "rid \<notin> set (map iir_id rs) \<Longrightarrow>
   filter (\<lambda>row. img_id row = rid) (fst (caption_images env i rs st)) =
     filter (\<lambda>row. img_id row = rid) (fst st)"
proof (induction rs arbitrary: i st)
  case Nil
  then show ?case by simp
next
  case (Cons r rs)
  have "filter (\<lambda>row. img_id row = rid) (fst (caption_images env (Suc i) rs (caption_image env i r st))) =
        filter (\<lambda>row. img_id row = rid) (fst (caption_image env i r st))"
    using Cons.IH Cons.prems by simp
  also have "\<dots> = filter (\<lambda>row. img_id row = rid) (fst st)"
    using Cons.prems by (intro caption_image_untouched) auto
  finally show ?case by simp
qed

lemma caption_images_closed:
  "vector_ids_own tbl \<Longrightarrow>
   \<exists>tbl'. caption_images env i rs (tbl, s, e) =
            (tbl', s + length (embeddings_of env rs), e @ embeddings_of env rs) \<and>
          vector_ids_own tbl'"
proof (induction rs arbitrary: i tbl s e)
  case Nil
  then show ?case by (simp add: embeddings_of_def)
next
  case (Cons r rs)
  show ?case
  proof (cases "describe_image env (iir_file_path r)")
    case (Inl msg)
    have own: "vector_ids_own (mark_failed (iir_id r) msg (now env i) tbl)"
      using Cons.prems by (rule vector_ids_own_mark_failed)
    from Cons.IH [OF own, of "Suc i" s e] show ?thesis
      by (simp add: caption_image_failed [OF Inl] embeddings_of_Cons_failed [OF Inl])
  next
    case (Inr d)
    from caption_image_ok [OF Inr Cons.prems, of i s e] obtain f where
      f: "\<forall>row. img_id (f row) = img_id row \<and> img_caption_status (f row) = Some ''done'' \<and>
                img_vector_id (f row) = Some (image_vector_id (iir_id r))"
      and step: "caption_image env i r (tbl, s, e) =
                   (update_images (iir_id r) f tbl, Suc s, e @ [image_embedding r d])"
      by blast
    have own: "vector_ids_own (update_images (iir_id r) f tbl)"
      using Cons.prems f by (intro vector_ids_own_update) auto
    from Cons.IH [OF own, of "Suc i" "Suc s" "e @ [image_embedding r d]"] show ?thesis
      by (simp add: step embeddings_of_Cons_ok [OF Inr])
  qed
qed


lemma caption_image_ids:
  "map img_id (fst (caption_image env i r st)) = map img_id (fst st)"
  by (cases st) (auto simp: caption_image_def Let_def mark_failed_def split: sum.splits)

lemma caption_images_ids:
  "map img_id (fst (caption_images env i rs st)) = map img_id (fst st)"
  by (induction rs arbitrary: i st) (simp_all add: caption_image_ids)

lemma caption_images_row:
  assumes "vector_ids_own tbl" and "distinct (map iir_id rs)" and "k < length rs"
  shows "\<exists>t s' e'. vector_ids_own t \<and>
           filter (\<lambda>row. img_id row = iir_id (rs ! k)) (fst (caption_images env i rs (tbl, s, e))) =
             filter (\<lambda>row. img_id row = iir_id (rs ! k))
               (fst (caption_image env (i + k) (rs ! k) (t, s', e')))"
  using assms
proof (induction rs arbitrary: i tbl s e k)
  case Nil
  then show ?case by simp
next
  case (Cons r rs)
  show ?case
  proof (cases k)
    case 0
    have "iir_id r \<notin> set (map iir_id rs)"
      using Cons.prems(2) by simp
    from caption_images_untouched [OF this, of env "Suc i" "caption_image env i r (tbl, s, e)"]
    have "filter (\<lambda>row. img_id row = iir_id r)
            (fst (caption_images env i (r # rs) (tbl, s, e))) =
          filter (\<lambda>row. img_id row = iir_id r) (fst (caption_image env i r (tbl, s, e)))"
      by simp
    with 0 Cons.prems(1) show ?thesis
      by auto
  next
    case (Suc k')
    from caption_images_closed [OF Cons.prems(1), of env i "[r]" s e]
    obtain t1 where
      step: "caption_image env i r (tbl, s, e) =
               (t1, s + length (embeddings_of env [r]), e @ embeddings_of env [r])"
      and own: "vector_ids_own t1"
      by auto
    have d: "distinct (map iir_id rs)" and k': "k' < length rs"
      using Cons.prems Suc by simp_all
    from Cons.IH [OF own d k', of "Suc i" "s + length (embeddings_of env [r])"
        "e @ embeddings_of env [r]"]
    show ?thesis
      using Suc step by simp
  qed
qed

lemma caption_images_row_failed:
  assumes "vector_ids_own tbl" and "distinct (map iir_id rs)" and "k < length rs"
      and "describe_image env (iir_file_path (rs ! k)) = Inl msg"
      and "row \<in> set (fst (caption_images env i rs (tbl, s, e)))"
      and "img_id row = iir_id (rs ! k)"
  shows "img_caption_status row = Some ''failed'' \<and>
         img_caption_error row = Some (take 512 msg) \<and>
         img_last_captioned_at row = Some (now env (i + k))"
proof -
  from caption_images_row [OF assms(1-3), of env i s e] obtain t s' e' where
    eq: "filter (\<lambda>row. img_id row = iir_id (rs ! k)) (fst (caption_images env i rs (tbl, s, e))) =
         filter (\<lambda>row. img_id row = iir_id (rs ! k))
           (fst (caption_image env (i + k) (rs ! k) (t, s', e')))"
    by blast
  have "row \<in> set (filter (\<lambda>row. img_id row = iir_id (rs ! k))
                 (fst (caption_images env i rs (tbl, s, e))))"
    using assms(5,6) by simp
  then have "row \<in> set (filter (\<lambda>row. img_id row = iir_id (rs ! k))
                 (mark_failed (iir_id (rs ! k)) msg (now env (i + k)) t))"
    unfolding eq caption_image_failed [OF assms(4)] by simp
  then show ?thesis
    unfolding mark_failed_def by (subst (asm) update_images_same) auto
qed

lemma caption_images_row_done:
  assumes "vector_ids_own tbl" and "distinct (map iir_id rs)" and "k < length rs"
      and "describe_image env (iir_file_path (rs ! k)) = Inr d"
      and "row \<in> set (fst (caption_images env i rs (tbl, s, e)))"
      and "img_id row = iir_id (rs ! k)"
  shows "img_caption_status row = Some ''done''"
proof -
  from caption_images_row [OF assms(1-3), of env i s e] obtain t s' e' where
    own: "vector_ids_own t" and
    eq: "filter (\<lambda>row. img_id row = iir_id (rs ! k)) (fst (caption_images env i rs (tbl, s, e))) =
         filter (\<lambda>row. img_id row = iir_id (rs ! k))
           (fst (caption_image env (i + k) (rs ! k) (t, s', e')))"
    by blast
  from caption_image_ok [OF assms(4) own, of "i + k" s' e'] obtain f where
    f: "\<forall>row. img_id (f row) = img_id row \<and> img_caption_status (f row) = Some ''done'' \<and>
              img_vector_id (f row) = Some (image_vector_id (iir_id (rs ! k)))"
    and step: "caption_image env (i + k) (rs ! k) (t, s', e') =
                 (update_images (iir_id (rs ! k)) f t, Suc s', e' @ [image_embedding (rs ! k) d])"
    by blast
  have "row \<in> set (filter (\<lambda>row. img_id row = iir_id (rs ! k))
                 (fst (caption_images env i rs (tbl, s, e))))"
    using assms(5,6) by simp
  then have "row \<in> set (filter (\<lambda>row. img_id row = iir_id (rs ! k))
                 (update_images (iir_id (rs ! k)) f t))"
    unfolding eq step by simp
  then have "row \<in> set (map f (filter (\<lambda>row. img_id row = iir_id (rs ! k)) t))"
    using f by (subst (asm) update_images_same) auto
  then show ?thesis
    using f by auto
qed

lemma embeddings_of_member:
  "x \<in> set (embeddings_of env rs) \<longleftrightarrow>
   (\<exists>r\<in>set rs. \<exists>d. describe_image env (iir_file_path r) = Inr d \<and> x = image_embedding r d)"
  by (induction rs)
     (auto simp: embeddings_of_def split: sum.splits)

lemma er_vector_id_image_embedding [simp]:
  "er_vector_id (image_embedding r d) = image_vector_id (iir_id r)"
  by (simp add: image_embedding_def)

lemma failed_record_no_embedding:
  assumes "distinct (map iir_id rs)" and "k < length rs"
      and "describe_image env (iir_file_path (rs ! k)) = Inl msg"
  shows "image_vector_id (iir_id (rs ! k)) \<notin> set (map er_vector_id (embeddings_of env rs))"
proof
  assume "image_vector_id (iir_id (rs ! k)) \<in> set (map er_vector_id (embeddings_of env rs))"
  then obtain x where x: "x \<in> set (embeddings_of env rs)"
    and xv: "er_vector_id x = image_vector_id (iir_id (rs ! k))"
    by auto
  from x obtain r d where r: "r \<in> set rs"
    and rd: "describe_image env (iir_file_path r) = Inr d" and xe: "x = image_embedding r d"
    unfolding embeddings_of_member by blast
  have "iir_id r = iir_id (rs ! k)"
    using xv xe image_vector_id_inj by simp
  moreover obtain j where j: "j < length rs" and rj: "r = rs ! j"
    using r by (auto simp: in_set_conv_nth)
  ultimately have "map iir_id rs ! j = map iir_id rs ! k"
    using assms(2) by simp
  moreover have "j < length (map iir_id rs)" and "k < length (map iir_id rs)"
    using j assms(2) by simp_all
  ultimately have "j = k"
    using assms(1) nth_eq_iff_index_eq by blast
  with rd rj assms(3) show False by simp
qed


text \<open>
  C7.  The batch is run on a table whose vector ids are the rows' own, with records of distinct
  ids, and the vision call raises for the record at position \<open>k\<close>.  The call returns: the
  count is the number of records whose vision call returned and the embedding records are
  theirs, in order, so the batch was not cut short.  No row is added or removed.  Every row of
  the failing record ends \<open>failed\<close>, with the first 512 characters of the error text and
  the time read for that record; no embedding record carries its vector id.  Every record
  whose vision call returned has its embedding record in the result and its rows \<open>done\<close>,
  wherever it stands in the batch.
\<close>

theorem caption_failure_isolated:
  assumes "vector_ids_own tbl"
      and "distinct (map iir_id records)"
      and "k < length records"
      and "describe_image env (iir_file_path (records ! k)) = Inl msg"
  shows "\<exists>tbl'.
           describe_and_index_images (Inr env) records tbl =
             (Inr (length (embeddings_of env records), embeddings_of env records), tbl') \<and>
           map img_id tbl' = map img_id tbl \<and>
           (\<forall>row\<in>set tbl'. img_id row = iir_id (records ! k) \<longrightarrow>
              img_caption_status row = Some ''failed'' \<and>
              img_caption_error row = Some (take 512 msg) \<and>
              img_last_captioned_at row = Some (now env k)) \<and>
           image_vector_id (iir_id (records ! k)) \<notin> set (map er_vector_id (embeddings_of env records)) \<and>
           (\<forall>j<length records. \<forall>d. describe_image env (iir_file_path (records ! j)) = Inr d \<longrightarrow>
              image_embedding (records ! j) d \<in> set (embeddings_of env records) \<and>
              (\<forall>row\<in>set tbl'. img_id row = iir_id (records ! j) \<longrightarrow>
                 img_caption_status row = Some ''done''))"
proof -
  have ne: "records \<noteq> []"
    using assms(3) by auto
  from caption_images_closed [OF assms(1), of env 0 records 0 "[]"] obtain tbl' where
    run: "caption_images env 0 records (tbl, 0, []) =
            (tbl', length (embeddings_of env records), embeddings_of env records)"
    by auto
  have tbl': "tbl' = fst (caption_images env 0 records (tbl, 0, []))"
    using run by simp
  have res: "describe_and_index_images (Inr env) records tbl =
               (Inr (length (embeddings_of env records), embeddings_of env records), tbl')"
    using ne run by (simp add: describe_and_index_images_def)
  have ids: "map img_id tbl' = map img_id tbl"
    unfolding tbl' using caption_images_ids [of env 0 records "(tbl, 0, [])"] by simp
  have failed: "\<forall>row\<in>set tbl'. img_id row = iir_id (records ! k) \<longrightarrow>
              img_caption_status row = Some ''failed'' \<and>
              img_caption_error row = Some (take 512 msg) \<and>
              img_last_captioned_at row = Some (now env k)"
    unfolding tbl'
    using caption_images_row_failed [OF assms(1-4), of _ 0 0 "[]"] by simp
  have noemb: "image_vector_id (iir_id (records ! k)) \<notin>
                 set (map er_vector_id (embeddings_of env records))"
    using assms(2-4) by (rule failed_record_no_embedding)
  have others: "\<forall>j<length records. \<forall>d. describe_image env (iir_file_path (records ! j)) = Inr d \<longrightarrow>
              image_embedding (records ! j) d \<in> set (embeddings_of env records) \<and>
              (\<forall>row\<in>set tbl'. img_id row = iir_id (records ! j) \<longrightarrow>
                 img_caption_status row = Some ''done'')"
  proof (intro allI impI conjI ballI)
    fix j d
    assume j: "j < length records" and d: "describe_image env (iir_file_path (records ! j)) = Inr d"
    show "image_embedding (records ! j) d \<in> set (embeddings_of env records)"
      unfolding embeddings_of_member using j d nth_mem by blast
    fix row
    assume "row \<in> set tbl'" and "img_id row = iir_id (records ! j)"
    then show "img_caption_status row = Some ''done''"
      unfolding tbl' using caption_images_row_done [OF assms(1,2) j d] by blast
  qed
  from res ids failed noemb others show ?thesis by blast
qed

theorem caption_failure_isolated_witness:
  "vector_ids_own sample_images \<and>
   distinct (map iir_id sample_records) \<and>
   describe_image sample_caption_env (iir_file_path (sample_records ! 0)) =
     Inl ''Gemini Vision request failed: None'' \<and>
   length (embeddings_of sample_caption_env sample_records) = 1 \<and>
   (\<exists>tbl'.
      describe_and_index_images (Inr sample_caption_env) sample_records sample_images =
        (Inr (length (embeddings_of sample_caption_env sample_records),
              embeddings_of sample_caption_env sample_records), tbl') \<and>
      (\<forall>row\<in>set tbl'. img_id row = iir_id (sample_records ! 0) \<longrightarrow>
         img_caption_status row = Some ''failed'' \<and>
         img_caption_error row = Some (take 512 ''Gemini Vision request failed: None'') \<and>
         img_last_captioned_at row = Some (now sample_caption_env 0)) \<and>
      (\<forall>row\<in>set tbl'. img_id row = iir_id (sample_records ! 1) \<longrightarrow>
         img_caption_status row = Some ''done''))"
proof -
  have own: "vector_ids_own sample_images"
    by code_simp
  have dist: "distinct (map iir_id sample_records)"
    by code_simp
  have k: "0 < length sample_records"
    by code_simp
  have j: "1 < length sample_records"
    by code_simp
  have bad: "describe_image sample_caption_env (iir_file_path (sample_records ! 0)) =
               Inl ''Gemini Vision request failed: None''"
    by code_simp
  have good: "describe_image sample_caption_env (iir_file_path (sample_records ! 1)) =
               Inr \<lparr>caption = ''A cat on a sofa'', tags = [''cat'', ''sofa''], detected_text = None\<rparr>"
    by code_simp
  have one: "length (embeddings_of sample_caption_env sample_records) = 1"
    by code_simp
  from caption_failure_isolated [OF own dist k bad] j good
  have "\<exists>tbl'.
      describe_and_index_images (Inr sample_caption_env) sample_records sample_images =
        (Inr (length (embeddings_of sample_caption_env sample_records),
              embeddings_of sample_caption_env sample_records), tbl') \<and>
      (\<forall>row\<in>set tbl'. img_id row = iir_id (sample_records ! 0) \<longrightarrow>
         img_caption_status row = Some ''failed'' \<and>
         img_caption_error row = Some (take 512 ''Gemini Vision request failed: None'') \<and>
         img_last_captioned_at row = Some (now sample_caption_env 0)) \<and>
      (\<forall>row\<in>set tbl'. img_id row = iir_id (sample_records ! 1) \<longrightarrow>
         img_caption_status row = Some ''done'')"
    by blast
  with own dist bad one show ?thesis by blast
qed

section \<open>Properties of the graph synchronizer\<close>

lemma register_person_calls:
  "gc_person_calls (snd (register_person gc ident dn gn fn raw src)) = gc_person_calls gc @ [ident]"
  by (simp add: register_person_def Let_def split: list.splits bool.splits)

lemma register_person_enabled:
  "gc_enabled (snd (register_person gc ident dn gn fn raw src)) = gc_enabled gc"
  by (simp add: register_person_def Let_def split: list.splits bool.splits)

lemma register_identifiers_calls:
  "gc_person_calls (ctx_client (register_identifiers ids pn gn fn src ctx)) =
     gc_person_calls (ctx_client ctx) @ map fst ids"
proof (induction ids arbitrary: ctx)
  case Nil
  then show ?case by simp
next
  case (Cons a ids)
  obtain canonical raw where a: "a = (canonical, raw)" by (cases a)
  obtain success gc' where
    rp: "register_person (ctx_client ctx) canonical pn gn fn (Some raw) (Some src) = (success, gc')"
    by (cases "register_person (ctx_client ctx) canonical pn gn fn (Some raw) (Some src)")
  have calls: "gc_person_calls gc' = gc_person_calls (ctx_client ctx) @ [canonical]"
    using register_person_calls [of "ctx_client ctx" canonical pn gn fn "Some raw" "Some src"] rp
    by simp
  show ?case
    unfolding a using rp calls by (simp add: Cons.IH Let_def)
qed

lemma register_identifiers_enabled:
  "gc_enabled (ctx_client (register_identifiers ids pn gn fn src ctx)) = gc_enabled (ctx_client ctx)"
proof (induction ids arbitrary: ctx)
  case Nil
  then show ?case by simp
next
  case (Cons a ids)
  obtain canonical raw where a: "a = (canonical, raw)" by (cases a)
  obtain success gc' where
    rp: "register_person (ctx_client ctx) canonical pn gn fn (Some raw) (Some src) = (success, gc')"
    by (cases "register_person (ctx_client ctx) canonical pn gn fn (Some raw) (Some src)")
  have en: "gc_enabled gc' = gc_enabled (ctx_client ctx)"
    using register_person_enabled [of "ctx_client ctx" canonical pn gn fn "Some raw" "Some src"] rp
    by simp
  show ?case
    unfolding a using rp en by (simp add: Cons.IH Let_def)
qed

lemma register_person_script:
  assumes "gc_enabled gc" and "c \<noteq> []"
  shows "fst (register_person gc c dn gn fn raw src) = call_succeeds (gc_failures gc)"
    and "gc_failures (snd (register_person gc c dn gn fn raw src)) = tl (gc_failures gc)"
  using assms
  by (auto simp: register_person_def call_succeeds_def Let_def split: list.splits bool.splits)

lemma registered_ok_append:
  "registered_ok fs (xs @ ys) = registered_ok fs xs @ registered_ok (drop (length xs) fs) ys"
  by (induction xs arbitrary: fs) (simp_all add: drop_Suc)

lemma contact_identifiers_nonempty:
  "i \<in> set (contact_identifiers ph em dn) \<Longrightarrow> fst i \<noteq> []"
  by (auto simp: contact_identifiers_def Let_def List.map_filter_def
      split: option.splits if_splits)

lemma register_identifiers_counted:
  assumes "ctx_stats ctx = Some st"
      and "finite (seen_contact_identifiers st)"
      and "contacts_registered st = card (seen_contact_identifiers st)"
      and "gc_enabled (ctx_client ctx)"
      and "\<forall>i\<in>set ids. fst i \<noteq> []"
  shows "\<exists>st'. ctx_stats (register_identifiers ids pn gn fn src ctx) = Some st' \<and>
           finite (seen_contact_identifiers st') \<and>
           contacts_registered st' = card (seen_contact_identifiers st') \<and>
           seen_contact_identifiers st' =
             seen_contact_identifiers st \<union>
             set (registered_ok (gc_failures (ctx_client ctx)) (map fst ids)) \<and>
           gc_failures (ctx_client (register_identifiers ids pn gn fn src ctx)) =
             drop (length ids) (gc_failures (ctx_client ctx))"
  using assms
proof (induction ids arbitrary: ctx st)
  case Nil
  then show ?case by simp
next
  case (Cons a ids)
  obtain canonical raw where a: "a = (canonical, raw)" by (cases a)
  have ne: "canonical \<noteq> []"
    using Cons.prems(5) a by simp
  obtain success gc' where
    rp: "register_person (ctx_client ctx) canonical pn gn fn (Some raw) (Some src) = (success, gc')"
    by (cases "register_person (ctx_client ctx) canonical pn gn fn (Some raw) (Some src)")
  have succ: "success = call_succeeds (gc_failures (ctx_client ctx))"
    using register_person_script(1) [OF Cons.prems(4) ne, of pn gn fn "Some raw" "Some src"] rp
    by simp
  have fs': "gc_failures gc' = tl (gc_failures (ctx_client ctx))"
    using register_person_script(2) [OF Cons.prems(4) ne, of pn gn fn "Some raw" "Some src"] rp
    by simp
  have en': "gc_enabled gc'"
    using register_person_enabled [of "ctx_client ctx" canonical pn gn fn "Some raw" "Some src"]
      rp Cons.prems(4) by simp
  define st1 where "st1 =
    (if success \<and> canonical \<notin> seen_contact_identifiers st
     then st\<lparr>seen_contact_identifiers := insert canonical (seen_contact_identifiers st),
             contacts_registered := contacts_registered st + 1\<rparr>
     else st)"
  define ctx2 where "ctx2 =
    (if success then
       ctx\<lparr>ctx_client := gc', ctx_stats := Some st1,
           ctx_alias := (if truthy (py_or pn (Some raw))
                         then AList.update canonical (or_str pn raw) (ctx_alias ctx)
                         else ctx_alias ctx)\<rparr>
     else ctx\<lparr>ctx_client := gc'\<rparr>)"
  have step: "register_identifiers (a # ids) pn gn fn src ctx = register_identifiers ids pn gn fn src ctx2"
    unfolding a ctx2_def st1_def using rp Cons.prems(1) by (simp add: Let_def)
  have s1: "ctx_stats ctx2 = Some st1"
    unfolding ctx2_def st1_def using Cons.prems(1) by simp
  have f1: "finite (seen_contact_identifiers st1)"
    unfolding st1_def using Cons.prems(2) by simp
  have c1: "contacts_registered st1 = card (seen_contact_identifiers st1)"
    unfolding st1_def using Cons.prems(2,3) by simp
  have seen1: "seen_contact_identifiers st1 =
                 seen_contact_identifiers st \<union> (if success then {canonical} else {})"
    unfolding st1_def by auto
  have cl2: "ctx_client ctx2 = gc'"
    unfolding ctx2_def by simp
  have en2: "gc_enabled (ctx_client ctx2)"
    unfolding cl2 by (rule en')
  have ne2: "\<forall>i\<in>set ids. fst i \<noteq> []"
    using Cons.prems(5) by simp
  from Cons.IH [OF s1 f1 c1 en2 ne2] obtain st' where
    r: "ctx_stats (register_identifiers ids pn gn fn src ctx2) = Some st'"
    and f: "finite (seen_contact_identifiers st')"
    and c: "contacts_registered st' = card (seen_contact_identifiers st')"
    and seen: "seen_contact_identifiers st' =
                 seen_contact_identifiers st1 \<union>
                 set (registered_ok (gc_failures (ctx_client ctx2)) (map fst ids))"
    and fl: "gc_failures (ctx_client (register_identifiers ids pn gn fn src ctx2)) =
               drop (length ids) (gc_failures (ctx_client ctx2))"
    by blast
  have seen': "seen_contact_identifiers st' =
                 seen_contact_identifiers st \<union>
                 set (registered_ok (gc_failures (ctx_client ctx)) (map fst (a # ids)))"
    unfolding seen seen1 cl2 fs' a succ by auto
  have fl': "gc_failures (ctx_client (register_identifiers ids pn gn fn src ctx2)) =
               drop (length (a # ids)) (gc_failures (ctx_client ctx))"
    unfolding fl cl2 fs' by (simp add: drop_Suc)
  from r f c seen' fl' show ?case
    unfolding step by blast
qed

lemma register_contact_counted:
  assumes "contacts_counted_once ctx"
  shows "contacts_counted_once (register_contact_with_graph dn gn fn ph em src ctx) \<and>
         seen_of (register_contact_with_graph dn gn fn ph em src ctx) =
           seen_of ctx \<union>
           (if gc_enabled (ctx_client ctx)
            then set (registered_ok (gc_failures (ctx_client ctx))
                        (map fst (contact_identifiers ph em dn)))
            else {}) \<and>
         gc_failures (ctx_client (register_contact_with_graph dn gn fn ph em src ctx)) =
           (if gc_enabled (ctx_client ctx)
            then drop (length (contact_identifiers ph em dn)) (gc_failures (ctx_client ctx))
            else gc_failures (ctx_client ctx))"
proof (cases "gc_enabled (ctx_client ctx)")
  case False
  then show ?thesis
    using assms by (simp add: register_contact_with_graph_def)
next
  case True
  from assms obtain st where st: "ctx_stats ctx = Some st"
    and f: "finite (seen_contact_identifiers st)"
    and c: "contacts_registered st = card (seen_contact_identifiers st)"
    by (auto simp: contacts_counted_once_def split: option.splits)
  define pn where "pn = py_or (py_or dn (compose_display_name gn fn))
                 (case contact_identifiers ph em dn of [] \<Rightarrow> None | (canonical, raw) # rest \<Rightarrow> Some raw)"
  have eq: "register_contact_with_graph dn gn fn ph em src ctx =
              register_identifiers (contact_identifiers ph em dn) pn gn fn src ctx"
    using True by (simp add: register_contact_with_graph_def Let_def pn_def)
  have ne: "\<forall>i\<in>set (contact_identifiers ph em dn). fst i \<noteq> []"
    using contact_identifiers_nonempty by blast
  from register_identifiers_counted [OF st f c True ne, of pn gn fn src]
  show ?thesis
    unfolding eq using st True by (auto simp: contacts_counted_once_def seen_of_def)
qed

lemma register_contact_calls:
  "gc_person_calls (ctx_client (register_contact_with_graph dn gn fn ph em src ctx)) =
     gc_person_calls (ctx_client ctx) @
     (if gc_enabled (ctx_client ctx) then map fst (contact_identifiers ph em dn) else [])"
  by (simp add: register_contact_with_graph_def Let_def register_identifiers_calls)

lemma register_contact_enabled:
  "gc_enabled (ctx_client (register_contact_with_graph dn gn fn ph em src ctx)) =
     gc_enabled (ctx_client ctx)"
  by (simp add: register_contact_with_graph_def Let_def register_identifiers_enabled)

lemma ingest_contact_row_ctx:
  "\<exists>dn gn fn ph em.
     contact_fields (build_payload columns row) = (dn, gn, fn, ph, em) \<and>
     snd (snd (ingest_contact_row db_path table_name columns row (tbl, n, ctx))) =
       register_contact_with_graph dn gn fn ph em (path_str db_path) ctx \<and>
     row_identifiers columns row = map fst (contact_identifiers ph em dn)"
  by (cases "contact_fields (build_payload columns row)")
     (simp add: ingest_contact_row_def row_identifiers_def Let_def)

lemma ingest_contact_rows_counted:
  assumes "contacts_counted_once ctx"
  shows "contacts_counted_once
           (snd (snd (foldl (\<lambda>s row. ingest_contact_row db_path table_name columns row s)
                        (tbl, n, ctx) rows))) \<and>
         seen_of (snd (snd (foldl (\<lambda>s row. ingest_contact_row db_path table_name columns row s)
                              (tbl, n, ctx) rows))) =
           seen_of ctx \<union>
           (if gc_enabled (ctx_client ctx)
            then set (registered_ok (gc_failures (ctx_client ctx))
                        (concat (map (row_identifiers columns) rows)))
            else {}) \<and>
         gc_person_calls
           (ctx_client (snd (snd (foldl (\<lambda>s row. ingest_contact_row db_path table_name columns row s)
                                    (tbl, n, ctx) rows)))) =
           gc_person_calls (ctx_client ctx) @
           (if gc_enabled (ctx_client ctx) then concat (map (row_identifiers columns) rows) else [])"
  using assms
proof (induction rows arbitrary: tbl n ctx)
  case Nil
  then show ?case by simp
next
  case (Cons row rows)
  obtain tbl1 n1 ctx1 where
    step: "ingest_contact_row db_path table_name columns row (tbl, n, ctx) = (tbl1, n1, ctx1)"
    by (cases "ingest_contact_row db_path table_name columns row (tbl, n, ctx)") auto
  from ingest_contact_row_ctx [of columns row db_path table_name tbl n ctx] obtain dn gn fn ph em
    where ctx1: "ctx1 = register_contact_with_graph dn gn fn ph em (path_str db_path) ctx"
      and ids: "row_identifiers columns row = map fst (contact_identifiers ph em dn)"
    using step by auto
  have len: "length (contact_identifiers ph em dn) = length (row_identifiers columns row)"
    unfolding ids by simp
  have c1: "contacts_counted_once ctx1"
    and seen1: "seen_of ctx1 =
                  seen_of ctx \<union>
                  (if gc_enabled (ctx_client ctx)
                   then set (registered_ok (gc_failures (ctx_client ctx)) (row_identifiers columns row))
                   else {})"
    and fl1: "gc_failures (ctx_client ctx1) =
                (if gc_enabled (ctx_client ctx)
                 then drop (length (row_identifiers columns row)) (gc_failures (ctx_client ctx))
                 else gc_failures (ctx_client ctx))"
    unfolding ctx1 ids [symmetric] len [symmetric]
    using register_contact_counted [OF Cons.prems, of dn gn fn ph em "path_str db_path"]
    unfolding ids [symmetric] len by blast+
  have calls1: "gc_person_calls (ctx_client ctx1) =
                  gc_person_calls (ctx_client ctx) @
                  (if gc_enabled (ctx_client ctx) then row_identifiers columns row else [])"
    unfolding ctx1 ids by (rule register_contact_calls)
  have en1: "gc_enabled (ctx_client ctx1) = gc_enabled (ctx_client ctx)"
    unfolding ctx1 by (rule register_contact_enabled)
  from Cons.IH [OF c1, of tbl1 n1] seen1 fl1 calls1 en1 show ?case
    unfolding foldl_Cons step by (auto simp: registered_ok_append)
qed


lemma table_identifiers_rows:
  "table_identifiers t =
     concat (map (row_identifiers (st_columns t))
               (map (\<lambda>(rowid, cells). SqlInt rowid # cells) (st_rows t)))"
  by (simp add: table_identifiers_def comp_def case_prod_unfold)

text \<open>
  C6 (as amended).  A contact table is ingested in a run whose counter of registered contacts
  equals the number of identifiers seen.  With the graph client enabled, \<open>register_person\<close>
  is called for every identifier of every row, in order, seen or not; a call succeeds exactly
  when the driver does not fail it; the identifiers that become seen are exactly those for
  which a call succeeded; and the counter still equals the number of identifiers seen.  So
  the counter rises once for each canonical identifier that is registered successfully for
  the first time in the run, and never again for it.  With the client disabled nothing is
  called and nothing becomes seen.
\<close>

theorem contacts_counted_once_per_identifier:
  assumes "contacts_counted_once ctx"
  shows "(let ctx' = snd (snd (ingest_contacts_from_table db_path t (tbl, ctx)))
          in contacts_counted_once ctx' \<and>
             seen_of ctx' =
               seen_of ctx \<union>
               (if gc_enabled (ctx_client ctx)
                then set (registered_ok (gc_failures (ctx_client ctx)) (table_identifiers t))
                else {}) \<and>
             gc_person_calls (ctx_client ctx') =
               gc_person_calls (ctx_client ctx) @
               (if gc_enabled (ctx_client ctx) then table_identifiers t else [])) \<and>
         (gc_enabled gc \<and> c \<noteq> [] \<longrightarrow>
            fst (register_person gc c dn gn fn raw src) = call_succeeds (gc_failures gc) \<and>
            registered_ok (gc_failures gc) [c] = (if call_succeeds (gc_failures gc) then [c] else []))"
proof -
  let ?rows = "map (\<lambda>(rowid, cells). SqlInt rowid # cells) (st_rows t)"
  let ?run = "foldl (\<lambda>s row. ingest_contact_row db_path (st_name t) (st_columns t) row s)
                (tbl, 0, ctx) ?rows"
  have eq: "snd (snd (ingest_contacts_from_table db_path t (tbl, ctx))) = snd (snd ?run)"
    by (simp add: ingest_contacts_from_table_def split: prod.splits)
  have run: "let ctx' = snd (snd (ingest_contacts_from_table db_path t (tbl, ctx)))
          in contacts_counted_once ctx' \<and>
             seen_of ctx' =
               seen_of ctx \<union>
               (if gc_enabled (ctx_client ctx)
                then set (registered_ok (gc_failures (ctx_client ctx)) (table_identifiers t))
                else {}) \<and>
             gc_person_calls (ctx_client ctx') =
               gc_person_calls (ctx_client ctx) @
               (if gc_enabled (ctx_client ctx) then table_identifiers t else [])"
    using ingest_contact_rows_counted [OF assms, of db_path "st_name t" "st_columns t" tbl 0 ?rows]
    unfolding Let_def eq table_identifiers_rows by blast
  have call: "gc_enabled gc \<and> c \<noteq> [] \<longrightarrow>
            fst (register_person gc c dn gn fn raw src) = call_succeeds (gc_failures gc) \<and>
            registered_ok (gc_failures gc) [c] = (if call_succeeds (gc_failures gc) then [c] else [])"
    using register_person_script(1) [of gc c dn gn fn raw src] by simp
  from run call show ?thesis by blast
qed

theorem contacts_counted_once_per_identifier_witness:
  "contacts_counted_once sample_failing_ctx \<and>
   gc_enabled (ctx_client sample_failing_ctx) \<and>
   gc_failures (ctx_client sample_failing_ctx) = [True] \<and>
   table_identifiers sample_contacts_table = [''+15550001'', ''jane@example.com'', ''+15550001''] \<and>
   registered_ok [True] (table_identifiers sample_contacts_table) =
     [''jane@example.com'', ''+15550001''] \<and>
   (let ctx' = snd (snd (ingest_contacts_from_table sample_contacts_db sample_contacts_table
                           (([], 0), sample_failing_ctx)))
    in contacts_counted_once ctx' \<and>
       seen_of ctx' = {''jane@example.com'', ''+15550001''} \<and>
       map_option contacts_registered (ctx_stats ctx') = Some 2 \<and>
       gc_person_calls (ctx_client ctx') = [''+15550001'', ''jane@example.com'', ''+15550001''])"
proof -
  have h: "contacts_counted_once sample_failing_ctx"
    by (simp add: contacts_counted_once_def sample_failing_ctx_def sample_ctx_def
        new_graph_stats_def)
  have en: "gc_enabled (ctx_client sample_failing_ctx)"
    by (simp add: sample_failing_ctx_def sample_ctx_def sample_client_def)
  have fs: "gc_failures (ctx_client sample_failing_ctx) = [True]"
    by (simp add: sample_failing_ctx_def sample_ctx_def sample_client_def)
  have seen0: "seen_of sample_failing_ctx = {}"
    by (simp add: seen_of_def sample_failing_ctx_def sample_ctx_def new_graph_stats_def)
  have calls0: "gc_person_calls (ctx_client sample_failing_ctx) = []"
    by (simp add: sample_failing_ctx_def sample_ctx_def sample_client_def)
  have ids: "table_identifiers sample_contacts_table =
               [''+15550001'', ''jane@example.com'', ''+15550001'']"
    by code_simp
  have ok: "registered_ok [True] (table_identifiers sample_contacts_table) =
              [''jane@example.com'', ''+15550001'']"
    unfolding ids by (simp add: call_succeeds_def)
  have ok_set: "set (registered_ok [True] [''+15550001'', ''jane@example.com'', ''+15550001'']) =
                  {''jane@example.com'', ''+15550001''}"
    using ok unfolding ids by simp
  have count: "map_option contacts_registered
                 (ctx_stats (snd (snd (ingest_contacts_from_table sample_contacts_db
                    sample_contacts_table (([], 0), sample_failing_ctx))))) = Some 2"
    by code_simp
  from contacts_counted_once_per_identifier [OF h, of sample_contacts_db sample_contacts_table
      "([], 0)"]
  have "let ctx' = snd (snd (ingest_contacts_from_table sample_contacts_db sample_contacts_table
                           (([], 0), sample_failing_ctx)))
    in contacts_counted_once ctx' \<and>
       seen_of ctx' = {''jane@example.com'', ''+15550001''} \<and>
       gc_person_calls (ctx_client ctx') = [''+15550001'', ''jane@example.com'', ''+15550001'']"
    unfolding Let_def fs seen0 calls0 ids ok_set using en by simp
  with h en fs ids ok count show ?thesis
    unfolding Let_def by blast
qed

text \<open>
  C6, the claim as stated: the second row of the sample table carries the phone number of the
  first.  Both registrations succeed, the identifier is counted once, and
  \<open>register_person\<close> is called for it a second time all the same.
\<close>

theorem register_person_repeated_counterexample:
  "gc_person_calls (ctx_client (snd (snd (ingest_contacts_from_table sample_contacts_db
       sample_contacts_table (([], 0), sample_ctx))))) =
     [''+15550001'', ''jane@example.com'', ''+15550001''] \<and>
   map_option contacts_registered (ctx_stats (snd (snd (ingest_contacts_from_table
       sample_contacts_db sample_contacts_table (([], 0), sample_ctx))))) = Some 2 \<and>
   gc_failures sample_client = []"
  by code_simp

section \<open>Properties of the image inventory\<close>

lemma dict_merge_map_of: "map_of (dict_merge a b) = map_of a ++ map_of (rev b)"
proof (induction b arbitrary: a)
  case Nil
  then show ?case by (simp add: dict_merge_def)
next
  case (Cons x b)
  obtain k v where x: "x = (k, v)" by (cases x)
  have "map_of (dict_merge a (x # b)) = map_of (dict_merge (AList.update k v a) b)"
    by (simp add: dict_merge_def x)
  also have "\<dots> = map_of (AList.update k v a) ++ map_of (rev b)"
    by (rule Cons.IH)
  also have "\<dots> = map_of a ++ map_of (rev (x # b))"
    by (simp add: x AList.update_conv' map_add_upd_left fun_eq_iff map_add_def split: option.splits)
  finally show ?case .
qed

lemma dict_merge_lookup:
  "distinct (map fst b) \<Longrightarrow>
   map_of (dict_merge a b) k = (case map_of b k of Some v \<Rightarrow> Some v | None \<Rightarrow> map_of a k)"
proof -
  assume d: "distinct (map fst b)"
  have "distinct (map fst (rev b))"
    using d by (simp add: rev_map [symmetric])
  then have "map_of (rev b) = map_of b"
    using d by (simp add: map_of_inject_set)
  then show ?thesis
    by (simp add: dict_merge_map_of map_add_def)
qed

lemma build_image_metadata_distinct:
  "distinct (map fst (build_image_metadata env image_path relative_path extraction_dir))"
  by (auto simp: build_image_metadata_def Let_def AList.distinct_update
      split: option.splits prod.splits)

lemma next_rowid_fresh: "next_rowid seq ids \<notin> set ids"
proof -
  have "\<forall>i\<in>set ids. i \<le> foldr max ids 0"
    by (induction ids) (auto simp: le_max_iff_disj)
  then show ?thesis
    unfolding next_rowid_def by fastforce
qed

lemma log_image_seen:
  "path_str p \<in> seen \<Longrightarrow> log_image env d p ((t, q), recs, seen, n) = ((t, q), recs, seen, n)"
  by (simp add: log_image_def)

lemma log_image_fresh:
  assumes "path_str p \<notin> seen" and "path_str p \<notin> set (map img_file_path t)"
  shows "\<exists>r. log_image env d p ((t, q), recs, seen, n) =
           ((t @ [r], img_id r),
            recs @ [\<lparr>iir_id = img_id r, iir_file_path = path_str p,
                     iir_relative_path = image_relative_path p d,
                     iir_metadata = new_metadata env d p\<rparr>],
            insert (path_str p) seen, Suc n) \<and>
           img_id r = next_rowid q (map img_id t) \<and> img_file_path r = path_str p \<and>
           img_caption_status r = Some ''pending'' \<and> img_vector_id r = None \<and>
           img_metadata r = MetaDict (new_metadata env d p)"
  using assms
  by (simp add: log_image_def insert_or_ignore_image_def Let_def image_relative_path_def
      new_metadata_def)


lemma find_unique:
  "distinct (map f xs) \<Longrightarrow> r0 \<in> set xs \<Longrightarrow> find (\<lambda>r. f r = f r0) xs = Some r0"
  by (induction xs) (auto simp: image_iff)

lemma update_images_unique:
  assumes "distinct (map img_id t)" and "r0 \<in> set t"
  shows "update_images (img_id r0) f t = map (\<lambda>r. if r = r0 then f r0 else r) t"
proof -
  have inj: "inj_on img_id (set t)"
    using assms(1) by (simp add: distinct_map)
  have "\<And>r. r \<in> set t \<Longrightarrow> (img_id r = img_id r0) = (r = r0)"
    using inj assms(2) by (auto dest: inj_onD)
  then show ?thesis
    unfolding update_images_def by (intro map_cong) auto
qed

lemma update_images_twice:
  "(\<And>r. img_id (f1 r) = img_id r) \<Longrightarrow>
   update_images i f2 (update_images i f1 t) = update_images i (\<lambda>r. f2 (f1 r)) t"
  by (induction t) (auto simp: update_images_def)

lemma log_image_existing:
  assumes "path_str p \<notin> seen" and "r0 \<in> set t" and "img_file_path r0 = path_str p"
      and "distinct (map img_file_path t)" and "distinct (map img_id t)"
  shows "log_image env d p ((t, q), recs, seen, n) =
           ((map (\<lambda>r. if r = r0 then rediscovered_row env d p r0 else r) t,
             next_rowid q (map img_id t)),
            (if is_done r0 then recs
             else recs @ [\<lparr>iir_id = img_id r0, iir_file_path = path_str p,
                           iir_relative_path = image_relative_path p d,
                           iir_metadata = dict_merge (existing_metadata r0) (new_metadata env d p)\<rparr>]),
            insert (path_str p) seen, Suc n)"
proof -
  have mem: "path_str p \<in> set (map img_file_path t)"
    using assms(2,3) by force
  have ins: "insert_or_ignore_image (path_str p) (image_relative_path p d) (new_metadata env d p)
               (t, q) = (None, t, next_rowid q (map img_id t))"
    using mem by (simp add: insert_or_ignore_image_def)
  have fnd: "find (\<lambda>r. img_file_path r = path_str p) t = Some r0"
    using find_unique [OF assms(4,2)] assms(3) by simp
  let ?f1 = "\<lambda>r. r\<lparr>img_relative_path := Some (image_relative_path p d),
                   img_source := Some ''ufdr'',
                   img_metadata := MetaDict (dict_merge (existing_metadata r0) (new_metadata env d p))\<rparr>"
  let ?f2 = "\<lambda>r. r\<lparr>img_caption_status := Some ''pending''\<rparr>"
  have u1: "update_images (img_id r0) ?f1 t = map (\<lambda>r. if r = r0 then ?f1 r0 else r) t"
    by (rule update_images_unique [OF assms(5,2)])
  have u2: "update_images (img_id r0) ?f2 (update_images (img_id r0) ?f1 t) =
              map (\<lambda>r. if r = r0 then ?f2 (?f1 r0) else r) t"
    by (subst update_images_twice) (simp_all add: update_images_unique [OF assms(5,2)])
  have r_done: "is_done r0 \<Longrightarrow> ?f1 r0 = rediscovered_row env d p r0"
    by (simp add: rediscovered_row_def)
  have r_pend: "\<not> is_done r0 \<Longrightarrow> ?f2 (?f1 r0) = rediscovered_row env d p r0"
    by (simp add: rediscovered_row_def)
  show ?thesis
  proof (cases "is_done r0")
    case True
    then have low: "lower (or_str (img_caption_status r0) []) = ''done''"
      by (simp add: is_done_def)
    show ?thesis
      using assms(1) ins fnd low True u1 r_done [OF True]
      by (simp add: log_image_def Let_def image_relative_path_def [symmetric]
          new_metadata_def [symmetric] existing_metadata_def [symmetric])
  next
    case False
    then have low: "lower (or_str (img_caption_status r0) []) \<noteq> ''done''"
      by (simp add: is_done_def)
    show ?thesis
      using assms(1) ins fnd low False u2 r_pend [OF False]
      by (simp add: log_image_def Let_def image_relative_path_def [symmetric]
          new_metadata_def [symmetric] existing_metadata_def [symmetric])
  qed
qed


lemma rediscovered_row_keeps [simp]:
  "img_id (rediscovered_row env d p e) = img_id e"
  "img_file_path (rediscovered_row env d p e) = img_file_path e"
  by (simp_all add: rediscovered_row_def)

lemma rediscovery_of_keeps:
  "rediscovery_of env d P e r \<Longrightarrow> img_id r = img_id e \<and> img_file_path r = img_file_path e"
  by (auto simp: rediscovery_of_def split: if_splits)

lemma list_all2_setD2:
  "list_all2 R xs ys \<Longrightarrow> y \<in> set ys \<Longrightarrow> \<exists>x\<in>set xs. R x y"
  by (induction rule: list_all2_induct) auto

lemma list_all2_setD1:
  "list_all2 R xs ys \<Longrightarrow> x \<in> set xs \<Longrightarrow> \<exists>y\<in>set ys. R x y"
  by (induction rule: list_all2_induct) auto

lemma rediscovery_paths:
  assumes "list_all2 (rediscovery_of env d P) tbl0 updated"
  shows "map img_file_path updated = map img_file_path tbl0"
    and "map img_id updated = map img_id tbl0"
  using assms
  by (induction rule: list_all2_induct) (auto dest: rediscovery_of_keeps)

lemma inventory_inv_seen:
  assumes "inventory_inv env d tbl0 P st" and "path_str p \<in> path_str ` P"
  shows "inventory_inv env d tbl0 (insert p P) st"
proof -
  have img: "path_str ` insert p P = path_str ` P"
    using assms(2) by auto
  have mono: "\<And>e r. rediscovery_of env d P e r \<Longrightarrow> rediscovery_of env d (insert p P) e r"
    unfolding rediscovery_of_def img by auto
  obtain t q recs seen n where st: "st = ((t, q), recs, seen, n)"
    by (cases st) auto
  from assms(1) obtain updated inserted where
    a: "seen = path_str ` P" "n = card (path_str ` P)"
       "distinct (map img_id t)" "distinct (map img_file_path t)"
    and t: "t = updated @ inserted"
    and u: "list_all2 (rediscovery_of env d P) tbl0 updated"
    and i: "list_all (\<lambda>r. img_caption_status r = Some ''pending'' \<and>
                         img_file_path r \<in> path_str ` P) inserted"
    and r: "set (map iir_id recs) =
             img_id ` set inserted \<union>
             img_id ` {e \<in> set tbl0. img_file_path e \<in> path_str ` P \<and> \<not> is_done e}"
    unfolding inventory_inv_def st by auto
  have u': "list_all2 (rediscovery_of env d (insert p P)) tbl0 updated"
    using u mono by (rule list_all2_mono)
  show ?thesis
    unfolding inventory_inv_def st img using a t u' i r
    unfolding img by auto
qed


lemma inventory_inv_fresh:
  assumes inv: "inventory_inv env d tbl0 P ((t, q), recs, seen, n)" and fin: "finite P"
      and new: "path_str p \<notin> path_str ` P" and absent: "path_str p \<notin> set (map img_file_path t)"
  shows "inventory_inv env d tbl0 (insert p P) (log_image env d p ((t, q), recs, seen, n))"
proof -
  from inv obtain updated inserted where
    seen: "seen = path_str ` P" and n: "n = card (path_str ` P)"
    and di: "distinct (map img_id t)" and dp: "distinct (map img_file_path t)"
    and t: "t = updated @ inserted"
    and u: "list_all2 (rediscovery_of env d P) tbl0 updated"
    and i: "list_all (\<lambda>r. img_caption_status r = Some ''pending'' \<and>
                         img_file_path r \<in> path_str ` P) inserted"
    and r: "set (map iir_id recs) =
             img_id ` set inserted \<union>
             img_id ` {e \<in> set tbl0. img_file_path e \<in> path_str ` P \<and> \<not> is_done e}"
    unfolding inventory_inv_def by auto
  have nseen: "path_str p \<notin> seen"
    using new seen by simp
  from log_image_fresh [OF nseen absent, where env = env and d = d and q = q and recs = recs
      and n = n] obtain row where
    step: "log_image env d p ((t, q), recs, seen, n) =
           ((t @ [row], img_id row),
            recs @ [\<lparr>iir_id = img_id row, iir_file_path = path_str p,
                     iir_relative_path = image_relative_path p d,
                     iir_metadata = new_metadata env d p\<rparr>],
            insert (path_str p) seen, Suc n)"
    and rid: "img_id row = next_rowid q (map img_id t)"
    and rpath: "img_file_path row = path_str p"
    and rstat: "img_caption_status row = Some ''pending''"
    by blast
  have img: "path_str ` insert p P = insert (path_str p) (path_str ` P)"
    by simp
  have paths0: "map img_file_path updated = map img_file_path tbl0"
    using u by (rule rediscovery_paths)
  have no0: "\<And>e. e \<in> set tbl0 \<Longrightarrow> img_file_path e \<noteq> path_str p"
  proof
    fix e assume "e \<in> set tbl0" and "img_file_path e = path_str p"
    then have "path_str p \<in> set (map img_file_path tbl0)" by force
    then show False using absent paths0 t by simp
  qed
  have u': "list_all2 (rediscovery_of env d (insert p P)) tbl0 updated"
    using u
  proof (rule list.rel_mono_strong)
    fix e r
    assume e: "e \<in> set tbl0" and rr: "rediscovery_of env d P e r"
    have "(img_file_path e \<in> path_str ` insert p P) = (img_file_path e \<in> path_str ` P)"
      using no0 [OF e] by auto
    with rr show "rediscovery_of env d (insert p P) e r"
      unfolding rediscovery_of_def by auto
  qed
  have i': "list_all (\<lambda>r. img_caption_status r = Some ''pending'' \<and>
                         img_file_path r \<in> path_str ` insert p P) (inserted @ [row])"
    using i rstat rpath by (auto simp: list_all_iff)
  have set0: "{e \<in> set tbl0. img_file_path e \<in> path_str ` insert p P \<and> \<not> is_done e} =
              {e \<in> set tbl0. img_file_path e \<in> path_str ` P \<and> \<not> is_done e}"
    using no0 by auto
  have r': "set (map iir_id (recs @ [\<lparr>iir_id = img_id row, iir_file_path = path_str p,
                     iir_relative_path = image_relative_path p d,
                     iir_metadata = new_metadata env d p\<rparr>])) =
             img_id ` set (inserted @ [row]) \<union>
             img_id ` {e \<in> set tbl0. img_file_path e \<in> path_str ` insert p P \<and> \<not> is_done e}"
    unfolding set0 using r by auto
  have di': "distinct (map img_id (t @ [row]))"
    using di rid next_rowid_fresh [of q "map img_id t"] by simp
  have dp': "distinct (map img_file_path (t @ [row]))"
    using dp rpath absent by simp
  have n': "Suc n = card (path_str ` insert p P)"
    using n new fin by simp
  have t': "t @ [row] = updated @ (inserted @ [row])"
    using t by simp
  show ?thesis
    unfolding step inventory_inv_def prod.case
    using seen n' di' dp' t' u' i' r' by blast
qed

lemma not_done_set_insert:
  assumes only: "\<And>e. e \<in> set tbl0 \<Longrightarrow> img_file_path e = path_str p \<Longrightarrow> e = r0"
      and r00: "r0 \<in> set tbl0" and r0p: "img_file_path r0 = path_str p"
  shows "{e \<in> set tbl0. img_file_path e \<in> path_str ` insert p P \<and> \<not> is_done e} =
              {e \<in> set tbl0. img_file_path e \<in> path_str ` P \<and> \<not> is_done e} \<union>
              (if is_done r0 then {} else {r0})"
proof -
  have "(e \<in> set tbl0 \<and> img_file_path e \<in> path_str ` insert p P \<and> \<not> is_done e) =
        ((e \<in> set tbl0 \<and> img_file_path e \<in> path_str ` P \<and> \<not> is_done e) \<or>
         (e = r0 \<and> \<not> is_done r0))" for e
  proof (cases "img_file_path e = path_str p")
    case same: True
    show ?thesis
    proof (cases "e \<in> set tbl0")
      case True
      then have "e = r0" using same by (rule only)
      then show ?thesis using r00 r0p by auto
    next
      case False
      then have "e \<noteq> r0" using r00 by auto
      with False show ?thesis by simp
    qed
  next
    case False
    then have "e \<noteq> r0" using r0p by auto
    moreover have "(img_file_path e \<in> path_str ` insert p P) = (img_file_path e \<in> path_str ` P)"
      using False by auto
    ultimately show ?thesis by simp
  qed
  then show ?thesis
    by (auto split: if_splits)
qed


lemma inventory_inv_existing:
  assumes inv: "inventory_inv env d tbl0 P ((t, q), recs, seen, n)" and fin: "finite P"
      and d0: "distinct (map img_file_path tbl0)"
      and new: "path_str p \<notin> path_str ` P" and present: "path_str p \<in> set (map img_file_path t)"
  shows "inventory_inv env d tbl0 (insert p P) (log_image env d p ((t, q), recs, seen, n))"
proof -
  from inv obtain updated inserted where
    seen: "seen = path_str ` P" and n: "n = card (path_str ` P)"
    and di: "distinct (map img_id t)" and dp: "distinct (map img_file_path t)"
    and t: "t = updated @ inserted"
    and u: "list_all2 (rediscovery_of env d P) tbl0 updated"
    and i: "list_all (\<lambda>r. img_caption_status r = Some ''pending'' \<and>
                         img_file_path r \<in> path_str ` P) inserted"
    and r: "set (map iir_id recs) =
             img_id ` set inserted \<union>
             img_id ` {e \<in> set tbl0. img_file_path e \<in> path_str ` P \<and> \<not> is_done e}"
    unfolding inventory_inv_def by auto
  have nseen: "path_str p \<notin> seen"
    using new seen by simp
  from present obtain r0 where r0t: "r0 \<in> set t" and r0p: "img_file_path r0 = path_str p"
    by auto
  have r0u: "r0 \<in> set updated"
  proof (rule ccontr)
    assume "r0 \<notin> set updated"
    then have "r0 \<in> set inserted" using r0t t by simp
    then have "img_file_path r0 \<in> path_str ` P" using i by (auto simp: list_all_iff)
    then show False using new r0p by simp
  qed
  from list_all2_setD2 [OF u r0u] obtain e0 where e0: "e0 \<in> set tbl0"
    and re0: "rediscovery_of env d P e0 r0"
    by blast
  have "img_file_path e0 = path_str p"
    using rediscovery_of_keeps [OF re0] r0p by simp
  then have r0e: "r0 = e0"
    using re0 new unfolding rediscovery_of_def by auto
  have r00: "r0 \<in> set tbl0"
    using e0 r0e by simp
  have r0i: "r0 \<notin> set inserted"
  proof
    assume "r0 \<in> set inserted"
    then have "img_file_path r0 \<in> path_str ` P" using i by (simp add: list_all_iff)
    then show False using new r0p by simp
  qed
  let ?h = "\<lambda>r. if r = r0 then rediscovered_row env d p r0 else r"
  have step: "log_image env d p ((t, q), recs, seen, n) =
           ((map ?h t, next_rowid q (map img_id t)),
            (if is_done r0 then recs
             else recs @ [\<lparr>iir_id = img_id r0, iir_file_path = path_str p,
                           iir_relative_path = image_relative_path p d,
                           iir_metadata = dict_merge (existing_metadata r0) (new_metadata env d p)\<rparr>]),
            insert (path_str p) seen, Suc n)"
    by (rule log_image_existing [OF nseen r0t r0p dp di])
  have ins_same: "map ?h inserted = inserted"
    using r0i by (induction inserted) auto
  have t': "map ?h t = map ?h updated @ inserted"
    using t ins_same by simp
  have ids: "map img_id (map ?h t) = map img_id t"
    by (induction t) auto
  have paths: "map img_file_path (map ?h t) = map img_file_path t"
    by (induction t) auto
  have inj: "inj_on img_file_path (set t)"
    using dp by (simp add: distinct_map)
  have u': "list_all2 (rediscovery_of env d (insert p P)) tbl0 (map ?h updated)"
    unfolding list_all2_map2 using u
  proof (rule list.rel_mono_strong)
    fix e r'
    assume e: "e \<in> set tbl0" and r': "r' \<in> set updated" and rr: "rediscovery_of env d P e r'"
    have keep: "img_file_path r' = img_file_path e"
      using rediscovery_of_keeps [OF rr] by simp
    show "rediscovery_of env d (insert p P) e (?h r')"
    proof (cases "r' = r0")
      case True
      then have "img_file_path e = path_str p" using keep r0p by simp
      then have "e = r0"
        using rr new True unfolding rediscovery_of_def by auto
      then show ?thesis
        using True r0p unfolding rediscovery_of_def by auto
    next
      case False
      have "img_file_path e \<noteq> path_str p"
      proof
        assume "img_file_path e = path_str p"
        then have "img_file_path r' = img_file_path r0" using keep r0p by simp
        moreover have "r' \<in> set t" using r' t by simp
        ultimately have "r' = r0" using inj r0t by (auto dest: inj_onD)
        with False show False by simp
      qed
      then have "(img_file_path e \<in> path_str ` insert p P) = (img_file_path e \<in> path_str ` P)"
        by auto
      with rr False show ?thesis
        unfolding rediscovery_of_def by auto
    qed
  qed
  have i': "list_all (\<lambda>r. img_caption_status r = Some ''pending'' \<and>
                         img_file_path r \<in> path_str ` insert p P) inserted"
    using i by (auto simp: list_all_iff)
  have inj0: "inj_on img_file_path (set tbl0)"
    using d0 by (simp add: distinct_map)
  have only: "e = r0" if "e \<in> set tbl0" and "img_file_path e = path_str p" for e
    using inj_onD [OF inj0, of e r0] that r00 r0p by simp
  have set0: "{e \<in> set tbl0. img_file_path e \<in> path_str ` insert p P \<and> \<not> is_done e} =
              {e \<in> set tbl0. img_file_path e \<in> path_str ` P \<and> \<not> is_done e} \<union>
              (if is_done r0 then {} else {r0})"
    using only r00 r0p by (rule not_done_set_insert)
  have r': "set (map iir_id (if is_done r0 then recs
             else recs @ [\<lparr>iir_id = img_id r0, iir_file_path = path_str p,
                           iir_relative_path = image_relative_path p d,
                           iir_metadata = dict_merge (existing_metadata r0) (new_metadata env d p)\<rparr>])) =
             img_id ` set inserted \<union>
             img_id ` {e \<in> set tbl0. img_file_path e \<in> path_str ` insert p P \<and> \<not> is_done e}"
  proof (cases "is_done r0")
    case True
    then show ?thesis unfolding set0 using r by simp
  next
    case False
    then show ?thesis unfolding set0 using r by (simp add: image_Un Un_assoc)
  qed
  have n': "Suc n = card (path_str ` insert p P)"
    using n new fin by simp
  have di': "distinct (map img_id (map ?h t))"
    unfolding ids by (rule di)
  have dp': "distinct (map img_file_path (map ?h t))"
    unfolding paths by (rule dp)
  have seen': "insert (path_str p) seen = path_str ` insert p P"
    using seen by simp
  have ex: "\<exists>updated' inserted'.
           map ?h t = updated' @ inserted' \<and>
           list_all2 (rediscovery_of env d (insert p P)) tbl0 updated' \<and>
           list_all (\<lambda>r. img_caption_status r = Some ''pending'' \<and>
                         img_file_path r \<in> path_str ` insert p P) inserted' \<and>
           set (map iir_id (if is_done r0 then recs
             else recs @ [\<lparr>iir_id = img_id r0, iir_file_path = path_str p,
                           iir_relative_path = image_relative_path p d,
                           iir_metadata = dict_merge (existing_metadata r0) (new_metadata env d p)\<rparr>])) =
             img_id ` set inserted' \<union>
             img_id ` {e \<in> set tbl0. img_file_path e \<in> path_str ` insert p P \<and> \<not> is_done e}"
    using t' u' i' r' by (intro exI [where x = "map ?h updated"] exI [where x = inserted] conjI)
  show ?thesis
    unfolding step inventory_inv_def prod.case
    using seen' n' di' dp' ex by (intro conjI)
qed


lemma inventory_inv_step:
  assumes "inventory_inv env d tbl0 P st" and "finite P" and "distinct (map img_file_path tbl0)"
  shows "inventory_inv env d tbl0 (insert p P) (log_image env d p st)"
proof -
  obtain t q recs seen n where st: "st = ((t, q), recs, seen, n)"
    by (cases st) auto
  have seen: "seen = path_str ` P"
    using assms(1) unfolding st inventory_inv_def by simp
  show ?thesis
  proof (cases "path_str p \<in> path_str ` P")
    case True
    then have "log_image env d p st = st"
      unfolding st using seen by (simp add: log_image_seen)
    then show ?thesis
      using inventory_inv_seen [OF assms(1) True] by simp
  next
    case False
    show ?thesis
    proof (cases "path_str p \<in> set (map img_file_path t)")
      case True
      show ?thesis
        unfolding st
        by (rule inventory_inv_existing [OF assms(1) [unfolded st] assms(2,3) False True])
    next
      case absent: False
      show ?thesis
        unfolding st
        by (rule inventory_inv_fresh [OF assms(1) [unfolded st] assms(2) False absent])
    qed
  qed
qed

lemma inventory_inv_fold:
  assumes "inventory_inv env d tbl0 P st" and "finite P" and "distinct (map img_file_path tbl0)"
  shows "inventory_inv env d tbl0 (P \<union> set ps) (foldl (\<lambda>st p. log_image env d p st) st ps)"
  using assms(1,2)
proof (induction ps arbitrary: P st)
  case Nil
  then show ?case by simp
next
  case (Cons p ps)
  have step: "inventory_inv env d tbl0 (insert p P) (log_image env d p st)"
    using Cons.prems assms(3) by (rule inventory_inv_step)
  have fin: "finite (insert p P)"
    using Cons.prems(2) by simp
  from Cons.IH [OF step fin] show ?case
    by simp
qed

lemma inventory_inv_init:
  assumes "distinct (map img_id tbl0)" and "distinct (map img_file_path tbl0)"
  shows "inventory_inv env d tbl0 {} ((tbl0, q), [], {}, 0)"
proof -
  have "list_all2 (rediscovery_of env d {}) tbl0 tbl0"
    by (simp add: list_all2_same rediscovery_of_def)
  then have "\<exists>updated inserted.
           tbl0 = updated @ inserted \<and>
           list_all2 (rediscovery_of env d {}) tbl0 updated \<and>
           list_all (\<lambda>r. img_caption_status r = Some ''pending'' \<and>
                         img_file_path r \<in> path_str ` {}) inserted \<and>
           set (map iir_id []) =
             img_id ` set inserted \<union>
             img_id ` {e \<in> set tbl0. img_file_path e \<in> path_str ` {} \<and> \<not> is_done e}"
    by (intro exI [where x = tbl0] exI [where x = "[]"]) simp
  then show ?thesis
    unfolding inventory_inv_def prod.case using assms by simp
qed


text \<open>
  C4.  The inventory of a list of paths runs on a table with distinct keys and distinct file
  paths.  The table it leaves is the stored rows, in place, followed by the rows it inserted.
  A stored row whose file path is not among the paths is untouched; one whose path is among
  them is the rediscovered row: its metadata is the stored metadata merged with the new one,
  where every key of the new metadata has the new value and every other key keeps the stored
  value; its caption status is kept when it is \<open>done\<close> in any letter case and is
  \<open>pending\<close> otherwise; key, path, description, tags, detected text, vector id and caption
  error are the stored ones.  The inserted rows are pending.  The records returned for
  captioning are those of the inserted rows and of the stored rows that were rediscovered and
  not \<open>done\<close>, and no others.
\<close>

theorem inventory_rediscovery:
  assumes "distinct (map img_id tbl)" and "distinct (map img_file_path tbl)"
  shows "(\<exists>records updated inserted seq'.
            log_image_inventory env image_paths d (tbl, seq) =
              ((card (path_str ` set image_paths), records), updated @ inserted, seq') \<and>
            list_all2 (rediscovery_of env d (set image_paths)) tbl updated \<and>
            list_all (\<lambda>r. img_caption_status r = Some ''pending'' \<and>
                          img_file_path r \<in> path_str ` set image_paths) inserted \<and>
            set (map iir_id records) =
              img_id ` set inserted \<union>
              img_id ` {e \<in> set tbl. img_file_path e \<in> path_str ` set image_paths \<and> \<not> is_done e}) \<and>
         img_metadata (rediscovered_row env d p e) =
           MetaDict (dict_merge (existing_metadata e) (new_metadata env d p)) \<and>
         map_of (dict_merge (existing_metadata e) (new_metadata env d p)) k =
           (case map_of (new_metadata env d p) k of
              Some v \<Rightarrow> Some v
            | None \<Rightarrow> map_of (existing_metadata e) k) \<and>
         img_caption_status (rediscovered_row env d p e) =
           (if lower (or_str (img_caption_status e) []) = ''done'' then img_caption_status e
            else Some ''pending'') \<and>
         img_id (rediscovered_row env d p e) = img_id e \<and>
         img_file_path (rediscovered_row env d p e) = img_file_path e \<and>
         img_description (rediscovered_row env d p e) = img_description e \<and>
         img_tags (rediscovered_row env d p e) = img_tags e \<and>
         img_detected_text (rediscovered_row env d p e) = img_detected_text e \<and>
         img_vector_id (rediscovered_row env d p e) = img_vector_id e \<and>
         img_caption_error (rediscovered_row env d p e) = img_caption_error e"
proof -
  have run: "\<exists>records updated inserted seq'.
            log_image_inventory env image_paths d (tbl, seq) =
              ((card (path_str ` set image_paths), records), updated @ inserted, seq') \<and>
            list_all2 (rediscovery_of env d (set image_paths)) tbl updated \<and>
            list_all (\<lambda>r. img_caption_status r = Some ''pending'' \<and>
                          img_file_path r \<in> path_str ` set image_paths) inserted \<and>
            set (map iir_id records) =
              img_id ` set inserted \<union>
              img_id ` {e \<in> set tbl. img_file_path e \<in> path_str ` set image_paths \<and> \<not> is_done e}"
  proof -
    obtain t q recs seen n where
      f: "foldl (\<lambda>st p. log_image env d p st) ((tbl, seq), [], {}, 0) image_paths =
            ((t, q), recs, seen, n)"
      by (cases "foldl (\<lambda>st p. log_image env d p st) ((tbl, seq), [], {}, 0) image_paths") auto
    have "inventory_inv env d tbl ({} \<union> set image_paths)
            (foldl (\<lambda>st p. log_image env d p st) ((tbl, seq), [], {}, 0) image_paths)"
      by (rule inventory_inv_fold [OF inventory_inv_init [OF assms] _ assms(2)]) simp
    then have inv: "inventory_inv env d tbl (set image_paths) ((t, q), recs, seen, n)"
      unfolding f by simp
    then obtain updated inserted where
      n: "n = card (path_str ` set image_paths)"
      and t: "t = updated @ inserted"
      and u: "list_all2 (rediscovery_of env d (set image_paths)) tbl updated"
      and i: "list_all (\<lambda>r. img_caption_status r = Some ''pending'' \<and>
                          img_file_path r \<in> path_str ` set image_paths) inserted"
      and r: "set (map iir_id recs) =
              img_id ` set inserted \<union>
              img_id ` {e \<in> set tbl. img_file_path e \<in> path_str ` set image_paths \<and> \<not> is_done e}"
      unfolding inventory_inv_def by auto
    have res: "log_image_inventory env image_paths d (tbl, seq) =
                 ((card (path_str ` set image_paths), recs), updated @ inserted, q)"
    proof (cases "image_paths = []")
      case True
      then have "t = tbl" and "q = seq" and "recs = []" and "n = 0"
        using f by simp_all
      then show ?thesis
        using True t by (simp add: log_image_inventory_def)
    next
      case False
      then show ?thesis
        using f n t by (simp add: log_image_inventory_def)
    qed
    from res u i r show ?thesis
      by (intro exI [where x = recs] exI [where x = updated] exI [where x = inserted]
          exI [where x = q] conjI)
  qed
  have merge: "map_of (dict_merge (existing_metadata e) (new_metadata env d p)) k =
           (case map_of (new_metadata env d p) k of
              Some v \<Rightarrow> Some v
            | None \<Rightarrow> map_of (existing_metadata e) k)"
    unfolding new_metadata_def
    by (rule dict_merge_lookup [OF build_image_metadata_distinct])
  have fields: "img_metadata (rediscovered_row env d p e) =
           MetaDict (dict_merge (existing_metadata e) (new_metadata env d p))"
    "img_caption_status (rediscovered_row env d p e) =
           (if lower (or_str (img_caption_status e) []) = ''done'' then img_caption_status e
            else Some ''pending'')"
    "img_description (rediscovered_row env d p e) = img_description e"
    "img_tags (rediscovered_row env d p e) = img_tags e"
    "img_detected_text (rediscovered_row env d p e) = img_detected_text e"
    "img_vector_id (rediscovered_row env d p e) = img_vector_id e"
    "img_caption_error (rediscovered_row env d p e) = img_caption_error e"
    by (simp_all add: rediscovered_row_def is_done_def)
  from run merge fields show ?thesis
    by (simp only: rediscovered_row_keeps simp_thms)
qed


theorem inventory_rediscovery_witness:
  "distinct (map img_id sample_captioned_images) \<and>
   distinct (map img_file_path sample_captioned_images) \<and>
   map img_caption_status sample_captioned_images = [Some ''failed'', Some ''done''] \<and>
   map iir_file_path (snd (fst (log_image_inventory sample_image_env sample_second_paths
       sample_extraction_dir (sample_captioned_images, 2)))) =
     [''/extracted/u1/a.jpg'', ''/extracted/u1/c.png''] \<and>
   map img_caption_status (fst (snd (log_image_inventory sample_image_env sample_second_paths
       sample_extraction_dir (sample_captioned_images, 2)))) =
     [Some ''pending'', Some ''done'', Some ''pending''] \<and>
   (\<exists>records updated inserted seq'.
      log_image_inventory sample_image_env sample_second_paths sample_extraction_dir
          (sample_captioned_images, 2) =
        ((card (path_str ` set sample_second_paths), records), updated @ inserted, seq') \<and>
      list_all2 (rediscovery_of sample_image_env sample_extraction_dir (set sample_second_paths))
        sample_captioned_images updated \<and>
      set (map iir_id records) =
        img_id ` set inserted \<union>
        img_id ` {e \<in> set sample_captioned_images.
                   img_file_path e \<in> path_str ` set sample_second_paths \<and> \<not> is_done e})"
proof -
  have h1: "distinct (map img_id sample_captioned_images)"
    by code_simp
  have h2: "distinct (map img_file_path sample_captioned_images)"
    by code_simp
  have before: "map img_caption_status sample_captioned_images = [Some ''failed'', Some ''done'']"
    by code_simp
  have recs: "map iir_file_path (snd (fst (log_image_inventory sample_image_env sample_second_paths
       sample_extraction_dir (sample_captioned_images, 2)))) =
     [''/extracted/u1/a.jpg'', ''/extracted/u1/c.png'']"
    by code_simp
  have after: "map img_caption_status (fst (snd (log_image_inventory sample_image_env
       sample_second_paths sample_extraction_dir (sample_captioned_images, 2)))) =
     [Some ''pending'', Some ''done'', Some ''pending'']"
    by code_simp
  from inventory_rediscovery [OF h1 h2, of sample_image_env sample_second_paths
      sample_extraction_dir 2]
  have "\<exists>records updated inserted seq'.
      log_image_inventory sample_image_env sample_second_paths sample_extraction_dir
          (sample_captioned_images, 2) =
        ((card (path_str ` set sample_second_paths), records), updated @ inserted, seq') \<and>
      list_all2 (rediscovery_of sample_image_env sample_extraction_dir (set sample_second_paths))
        sample_captioned_images updated \<and>
      set (map iir_id records) =
        img_id ` set inserted \<union>
        img_id ` {e \<in> set sample_captioned_images.
                   img_file_path e \<in> path_str ` set sample_second_paths \<and> \<not> is_done e}"
    by blast
  with h1 h2 before recs after show ?thesis by blast
qed

end
